theory Spec2Isabelle
  imports Complex_Main "HOL-Library.Multiset"
begin

section \<open>The chat store client of \<open>api/clients/postgres.py\<close>\<close>

text \<open>
  \<open>PostgresChatClient\<close> keeps one connection handle and two process-local flags, and
  talks to a PostgreSQL database through \<open>cursor.execute\<close>. The embedding below passes
  the client's fields, the database contents and the environment around as one record
  (\<open>world\<close>). Every Python exception is a value of type \<open>exn\<close>; every operation returns
  its outcome together with the world it leaves behind, because the effects made before
  an exception is raised stay in place (the connection runs with \<open>autocommit=True\<close>).
\<close>

subsection \<open>Timestamps\<close>

text \<open>
  A Python \<open>datetime\<close> object, as returned by \<open>datetime.utcnow()\<close>: a naive value made
  of calendar fields.
\<close>

record datetime =
  year :: nat
  month :: nat
  day :: nat
  hour :: nat
  minute :: nat
  second :: nat
  microsecond :: nat

definition digit_char :: "nat \<Rightarrow> char" where
  "digit_char d = char_of (48 + d mod 10)"

fun zero_pad :: "nat \<Rightarrow> nat \<Rightarrow> string" where
  "zero_pad 0 n = []"
| "zero_pad (Suc w) n = zero_pad w (n div 10) @ [digit_char n]"

text \<open>
  \<open>datetime.isoformat()\<close>: \<open>YYYY-MM-DDTHH:MM:SS\<close>, followed by \<open>.ffffff\<close> when the
  microsecond field is not zero.
\<close>

definition isoformat :: "datetime \<Rightarrow> string" where
  "isoformat t =
     zero_pad 4 (year t) @ ''-'' @ zero_pad 2 (month t) @ ''-'' @ zero_pad 2 (day t) @ ''T'' @
     zero_pad 2 (hour t) @ '':'' @ zero_pad 2 (minute t) @ '':'' @ zero_pad 2 (second t) @
     (if microsecond t = 0 then [] else ''.'' @ zero_pad 6 (microsecond t))"

text \<open>
  The proleptic Gregorian day count of the \<open>datetime\<close> module (\<open>_ymd2ord\<close>); the
  ordinal of 1970-01-01 is 719163.
\<close>

definition is_leap :: "nat \<Rightarrow> bool" where
  "is_leap y = (y mod 4 = 0 \<and> (y mod 100 \<noteq> 0 \<or> y mod 400 = 0))"

definition days_before_year :: "nat \<Rightarrow> int" where
  "days_before_year y =
     (let p = int y - 1 in p * 365 + p div 4 - p div 100 + p div 400)"

definition days_before_month :: "nat \<Rightarrow> nat \<Rightarrow> int" where
  "days_before_month y m =
     int ([0, 0, 31, 59, 90, 120, 151, 181, 212, 243, 273, 304, 334] ! (m mod 13)) +
     (if 2 < m \<and> is_leap y then 1 else 0)"

definition ymd2ord :: "nat \<Rightarrow> nat \<Rightarrow> nat \<Rightarrow> int" where
  "ymd2ord y m d = days_before_year y + days_before_month y m + int d"

text \<open>
  Microseconds since 1970-01-01T00:00:00 of a naive \<open>datetime\<close>. \<open>now.timestamp()\<close>
  reads a naive value in the host's local time zone; the host is taken to run in UTC,
  as \<open>utcnow()\<close> presumes.
\<close>

definition epoch_micros :: "datetime \<Rightarrow> int" where
  "epoch_micros t =
     (((((ymd2ord (year t) (month t) (day t) - 719163) * 24 + int (hour t)) * 60
          + int (minute t)) * 60 + int (second t)) * 1000000) + int (microsecond t)"

text \<open>
  \<open>int(now.timestamp() * 1000)\<close>: the timestamp in milliseconds, truncated towards
  zero by \<open>int()\<close>. The product is computed here in exact arithmetic; the rounding of the
  binary floating-point product is outside this embedding.
\<close>

definition message_id_of :: "datetime \<Rightarrow> int" where
  "message_id_of t =
     (let us = epoch_micros t in if 0 \<le> us then us div 1000 else - ((- us) div 1000))"

subsection \<open>Metadata documents\<close>

text \<open>
  The values a metadata map can hold, and the two functions of Python's \<open>json\<close> module
  the client calls on them. Strings are lists of 8-bit characters, read as the code
  points U+0000 to U+00FF; numbers are integers. Floating-point numbers and code points
  above U+00FF are outside this embedding: \<open>json_loads\<close> gives \<open>None\<close> on a document
  that holds one. An object is an association list in insertion order, as a Python
  \<open>dict\<close> is.
\<close>

datatype json =
    JNull
  | JBool bool
  | JInt int
  | JStr string
  | JArr "json list"
  | JObj "(string \<times> json) list"

text \<open>\<open>json.dumps\<close> with its default separators and \<open>ensure_ascii=True\<close>.\<close>

fun nat_digits :: "nat \<Rightarrow> string" where
  "nat_digits n = (if n < 10 then [digit_char n] else nat_digits (n div 10) @ [digit_char n])"

declare nat_digits.simps [simp del]

definition int_repr :: "int \<Rightarrow> string" where
  "int_repr i = (if i < 0 then CHR ''-'' # nat_digits (nat (- i)) else nat_digits (nat i))"

definition hex_char :: "nat \<Rightarrow> char" where
  "hex_char d = ''0123456789abcdef'' ! (d mod 16)"

definition escape_char :: "char \<Rightarrow> string" where
  "escape_char c =
     (if c = CHR 0x22 then [CHR 0x5C, CHR 0x22]
      else if c = CHR 0x5C then [CHR 0x5C, CHR 0x5C]
      else if c = CHR 0x0A then [CHR 0x5C, CHR ''n'']
      else if c = CHR 0x0D then [CHR 0x5C, CHR ''r'']
      else if c = CHR 0x09 then [CHR 0x5C, CHR ''t'']
      else if c = CHR 0x08 then [CHR 0x5C, CHR ''b'']
      else if c = CHR 0x0C then [CHR 0x5C, CHR ''f'']
      else if (of_char c :: nat) < 32 \<or> 126 < (of_char c :: nat)
        then [CHR 0x5C, CHR ''u'', CHR ''0'', CHR ''0'',
              hex_char (of_char c div 16), hex_char (of_char c mod 16)]
      else [c])"

definition encode_string :: "string \<Rightarrow> string" where
  "encode_string s = CHR 0x22 # concat (map escape_char s) @ [CHR 0x22]"

fun join_comma :: "string list \<Rightarrow> string" where
  "join_comma [] = []"
| "join_comma [x] = x"
| "join_comma (x # y # ys) = x @ '', '' @ join_comma (y # ys)"

fun json_dumps :: "json \<Rightarrow> string" where
  "json_dumps JNull = ''null''"
| "json_dumps (JBool b) = (if b then ''true'' else ''false'')"
| "json_dumps (JInt i) = int_repr i"
| "json_dumps (JStr s) = encode_string s"
| "json_dumps (JArr xs) = ''['' @ join_comma (map json_dumps xs) @ '']''"
| "json_dumps (JObj kvs) =
     ''{'' @ join_comma (map (\<lambda>kv. encode_string (fst kv) @ '': '' @ json_dumps (snd kv)) kvs) @ ''}''"

text \<open>
  \<open>json.loads\<close>: the scanner of \<open>json.decoder\<close> and \<open>json.scanner\<close>. The mutually
  recursive functions take the nesting they may still open as fuel; \<open>json_loads\<close>
  starts them with more fuel than the document has characters.
\<close>

definition is_ws :: "char \<Rightarrow> bool" where
  "is_ws c = (c = CHR '' '' \<or> c = CHR 0x09 \<or> c = CHR 0x0A \<or> c = CHR 0x0D)"

definition skip_ws :: "string \<Rightarrow> string" where
  "skip_ws s = dropWhile is_ws s"

definition is_digit :: "char \<Rightarrow> bool" where
  "is_digit c = (48 \<le> (of_char c :: nat) \<and> (of_char c :: nat) \<le> 57)"

definition hex_value :: "char \<Rightarrow> nat option" where
  "hex_value c =
     (let n = (of_char c :: nat) in
      if 48 \<le> n \<and> n \<le> 57 then Some (n - 48)
      else if 97 \<le> n \<and> n \<le> 102 then Some (n - 87)
      else if 65 \<le> n \<and> n \<le> 70 then Some (n - 55)
      else None)"

definition hex4 :: "char \<Rightarrow> char \<Rightarrow> char \<Rightarrow> char \<Rightarrow> nat option" where
  "hex4 a b c d =
     (case (hex_value a, hex_value b, hex_value c, hex_value d) of
        (Some x, Some y, Some z, Some u) \<Rightarrow> Some (((x * 16 + y) * 16 + z) * 16 + u)
      | _ \<Rightarrow> None)"

definition unescape :: "char \<Rightarrow> char option" where
  "unescape e =
     (if e = CHR 0x22 then Some (CHR 0x22)
      else if e = CHR 0x5C then Some (CHR 0x5C)
      else if e = CHR ''/'' then Some (CHR ''/'')
      else if e = CHR ''b'' then Some (CHR 0x08)
      else if e = CHR ''f'' then Some (CHR 0x0C)
      else if e = CHR ''n'' then Some (CHR 0x0A)
      else if e = CHR ''r'' then Some (CHR 0x0D)
      else if e = CHR ''t'' then Some (CHR 0x09)
      else None)"

definition prepend :: "char \<Rightarrow> (string \<times> string) option \<Rightarrow> (string \<times> string) option" where
  "prepend c r = (case r of None \<Rightarrow> None | Some (s, rest) \<Rightarrow> Some (c # s, rest))"

fun scanstring :: "string \<Rightarrow> (string \<times> string) option" where
  "scanstring [] = None"
| "scanstring (c # cs) =
     (if c = CHR 0x22 then Some ([], cs)
      else if c = CHR 0x5C then
        (case cs of
           [] \<Rightarrow> None
         | e # r \<Rightarrow>
             if e = CHR ''u'' then
               (case r of
                  h1 # h2 # h3 # h4 # r' \<Rightarrow>
                    (case hex4 h1 h2 h3 h4 of
                       None \<Rightarrow> None
                     | Some code \<Rightarrow>
                         if code < 256 then prepend (char_of code) (scanstring r') else None)
                | _ \<Rightarrow> None)
             else
               (case unescape e of
                  None \<Rightarrow> None
                | Some ch \<Rightarrow> prepend ch (scanstring r)))
      else if (of_char c :: nat) < 32 then None
      else prepend c (scanstring cs))"

definition digits_value :: "string \<Rightarrow> nat" where
  "digits_value ds = foldl (\<lambda>a c. 10 * a + (of_char c - 48)) 0 ds"

definition starts_with_digit :: "string \<Rightarrow> bool" where
  "starts_with_digit s = (case s of [] \<Rightarrow> False | c # _ \<Rightarrow> is_digit c)"

definition float_follows :: "string \<Rightarrow> bool" where
  "float_follows r =
     (case r of
        [] \<Rightarrow> False
      | c # r1 \<Rightarrow>
          if c = CHR ''.'' then starts_with_digit r1
          else if c = CHR ''e'' \<or> c = CHR ''E'' then
            (case r1 of
               [] \<Rightarrow> False
             | s # r2 \<Rightarrow> if s = CHR ''+'' \<or> s = CHR ''-'' then starts_with_digit r2 else is_digit s)
          else False)"

definition match_number :: "string \<Rightarrow> (json \<times> string) option" where
  "match_number s =
     (let neg = (case s of [] \<Rightarrow> False | c # _ \<Rightarrow> c = CHR ''-'');
          s1 = (if neg then tl s else s);
          ds = (case s1 of [] \<Rightarrow> [] | c # _ \<Rightarrow> if c = CHR ''0'' then [c] else takeWhile is_digit s1);
          r = drop (length ds) s1
      in if ds = [] \<or> float_follows r then None
         else Some (JInt (if neg then - int (digits_value ds) else int (digits_value ds)), r))"

text \<open>\<open>dict(pairs)\<close>: a repeated key keeps its first position and takes the last value.\<close>

fun dict_set :: "(string \<times> json) list \<Rightarrow> string \<times> json \<Rightarrow> (string \<times> json) list" where
  "dict_set [] kv = [kv]"
| "dict_set (p # d) kv = (if fst p = fst kv then kv # d else p # dict_set d kv)"

definition dict_of :: "(string \<times> json) list \<Rightarrow> (string \<times> json) list" where
  "dict_of kvs = foldl dict_set [] kvs"

fun scan_once :: "nat \<Rightarrow> string \<Rightarrow> (json \<times> string) option"
  and parse_array :: "nat \<Rightarrow> string \<Rightarrow> (json list \<times> string) option"
  and parse_object :: "nat \<Rightarrow> string \<Rightarrow> ((string \<times> json) list \<times> string) option"
where
  "scan_once 0 s = None"
| "scan_once (Suc n) s =
     (case s of
        [] \<Rightarrow> None
      | c # r \<Rightarrow>
          if c = CHR 0x22 then
            (case scanstring r of None \<Rightarrow> None | Some (str, r1) \<Rightarrow> Some (JStr str, r1))
          else if c = CHR ''{'' then
            (case skip_ws r of
               [] \<Rightarrow> None
             | c1 # r1 \<Rightarrow>
                 if c1 = CHR ''}'' then Some (JObj [], r1)
                 else (case parse_object n (c1 # r1) of
                         None \<Rightarrow> None
                       | Some (kvs, r2) \<Rightarrow> Some (JObj (dict_of kvs), r2)))
          else if c = CHR ''['' then
            (case skip_ws r of
               [] \<Rightarrow> None
             | c1 # r1 \<Rightarrow>
                 if c1 = CHR '']'' then Some (JArr [], r1)
                 else (case parse_array n (c1 # r1) of
                         None \<Rightarrow> None
                       | Some (vs, r2) \<Rightarrow> Some (JArr vs, r2)))
          else if take 4 s = ''null'' then Some (JNull, drop 4 s)
          else if take 4 s = ''true'' then Some (JBool True, drop 4 s)
          else if take 5 s = ''false'' then Some (JBool False, drop 5 s)
          else match_number s)"
| "parse_array 0 s = None"
| "parse_array (Suc n) s =
     (case scan_once n s of
        None \<Rightarrow> None
      | Some (v, r) \<Rightarrow>
          (case skip_ws r of
             [] \<Rightarrow> None
           | c # r1 \<Rightarrow>
               if c = CHR '']'' then Some ([v], r1)
               else if c = CHR '','' then
                 (case parse_array n (skip_ws r1) of
                    None \<Rightarrow> None
                  | Some (vs, r2) \<Rightarrow> Some (v # vs, r2))
               else None))"
| "parse_object 0 s = None"
| "parse_object (Suc n) s =
     (case s of
        [] \<Rightarrow> None
      | q # r \<Rightarrow>
          if q \<noteq> CHR 0x22 then None
          else
            (case scanstring r of
               None \<Rightarrow> None
             | Some (k, r1) \<Rightarrow>
                 (case skip_ws r1 of
                    [] \<Rightarrow> None
                  | c1 # r2 \<Rightarrow>
                      if c1 \<noteq> CHR '':'' then None
                      else
                        (case scan_once n (skip_ws r2) of
                           None \<Rightarrow> None
                         | Some (v, r3) \<Rightarrow>
                             (case skip_ws r3 of
                                [] \<Rightarrow> None
                              | c3 # r4 \<Rightarrow>
                                  if c3 = CHR ''}'' then Some ([(k, v)], r4)
                                  else if c3 = CHR '','' then
                                    (case parse_object n (skip_ws r4) of
                                       None \<Rightarrow> None
                                     | Some (kvs, r5) \<Rightarrow> Some ((k, v) # kvs, r5))
                                  else None)))))"

definition json_loads :: "string \<Rightarrow> json option" where
  "json_loads s =
     (case scan_once (Suc (length s)) (skip_ws s) of
        None \<Rightarrow> None
      | Some (v, r) \<Rightarrow> if skip_ws r = [] then Some v else None)"


text \<open>What can follow a value in a document written by \<open>json_dumps\<close>, what a value can
  start with, and the text of one member of an object.\<close>

definition delimited :: "string \<Rightarrow> bool" where
  "delimited r = (case r of [] \<Rightarrow> True | c # _ \<Rightarrow> c = CHR '','' \<or> c = CHR '']'' \<or> c = CHR ''}'')"



subsection \<open>Rows, tables and statements\<close>

text \<open>
  The two tables created by \<open>init\<close>. The \<open>metadata\<close> columns hold the document text that
  the client passes in (\<open>json.dumps(metadata or {})\<close>); reading a row decodes it with
  \<open>json_loads\<close>, which stands for the decoding of a \<open>JSONB\<close> value by the driver and for the
  client's own \<open>json.loads\<close> of a value that arrives as text.
\<close>

record chat_row =
  c_id :: string
  c_created_at :: datetime
  c_updated_at :: datetime
  c_metadata :: string

record message_row =
  m_id :: int
  m_chat_id :: string
  m_role :: string
  m_content :: string
  m_created_at :: datetime
  m_metadata :: string

record database =
  has_schema :: bool
  has_chats :: bool
  has_messages :: bool
  has_idx_chat_id :: bool
  has_idx_created_at :: bool
  chats :: "chat_row list"
  messages :: "message_row list"

text \<open>The statements the client sends, one constructor per SQL text in the source.\<close>

datatype statement =
    CreateSchema
  | CreateChats
  | CreateMessages
  | CreateIdxChatId
  | CreateIdxCreatedAt
  | Select1
  | InsertChat chat_row
  | UpdateChatTs datetime string
  | InsertMessage message_row
  | SelectChat string
  | SelectMessages string
  | DeleteChat string

datatype store_error =
    ServerFault
  | ConnectionLost
  | ConnectionClosed
  | InvalidSchemaName
  | UndefinedTable
  | UniqueViolation
  | ForeignKeyViolation
  | StringDataRightTruncation
  | NumericValueOutOfRange

text \<open>What a cursor holds after \<open>execute\<close>: the row count and the fetched rows.\<close>

record cursor =
  rowcount :: nat
  chat_rows :: "chat_row list"
  message_rows :: "message_row list"

definition no_rows :: "nat \<Rightarrow> cursor" where
  "no_rows n = \<lparr>rowcount = n, chat_rows = [], message_rows = []\<rparr>"

definition chat_ids :: "database \<Rightarrow> string list" where
  "chat_ids d = map c_id (chats d)"

definition message_keys :: "database \<Rightarrow> (string \<times> int) list" where
  "message_keys d = map (\<lambda>m. (m_chat_id m, m_id m)) (messages d)"

text \<open>
  The effect of one statement on the database, read off the SQL of the source:
  \<open>CREATE ... IF NOT EXISTS\<close>, the primary keys \<open>chats(id)\<close> and \<open>messages(chat_id, id)\<close>,
  the foreign key \<open>messages.chat_id REFERENCES chats(id) ON DELETE CASCADE\<close>, the column
  types \<open>VARCHAR(36)\<close>, \<open>VARCHAR(50)\<close> and \<open>BIGINT\<close>, and \<open>ORDER BY created_at ASC\<close>.
\<close>

definition run_stmt :: "statement \<Rightarrow> database \<Rightarrow> store_error + (cursor \<times> database)" where
  "run_stmt s d =
     (case s of
        CreateSchema \<Rightarrow> Inr (no_rows 0, d\<lparr>has_schema := True\<rparr>)
      | CreateChats \<Rightarrow>
          if \<not> has_schema d then Inl InvalidSchemaName
          else Inr (no_rows 0, d\<lparr>has_chats := True\<rparr>)
      | CreateMessages \<Rightarrow>
          if \<not> has_schema d then Inl InvalidSchemaName
          else if has_messages d then Inr (no_rows 0, d)
          else if \<not> has_chats d then Inl UndefinedTable
          else Inr (no_rows 0, d\<lparr>has_messages := True\<rparr>)
      | CreateIdxChatId \<Rightarrow>
          if \<not> has_schema d then Inl InvalidSchemaName
          else if has_idx_chat_id d then Inr (no_rows 0, d)
          else if \<not> has_messages d then Inl UndefinedTable
          else Inr (no_rows 0, d\<lparr>has_idx_chat_id := True\<rparr>)
      | CreateIdxCreatedAt \<Rightarrow>
          if \<not> has_schema d then Inl InvalidSchemaName
          else if has_idx_created_at d then Inr (no_rows 0, d)
          else if \<not> has_messages d then Inl UndefinedTable
          else Inr (no_rows 0, d\<lparr>has_idx_created_at := True\<rparr>)
      | Select1 \<Rightarrow> Inr (no_rows 1, d)
      | InsertChat r \<Rightarrow>
          if \<not> has_chats d then Inl UndefinedTable
          else if 36 < length (c_id r) then Inl StringDataRightTruncation
          else if c_id r \<in> set (chat_ids d) then Inl UniqueViolation
          else Inr (no_rows 1, d\<lparr>chats := chats d @ [r]\<rparr>)
      | UpdateChatTs t cid \<Rightarrow>
          if \<not> has_chats d then Inl UndefinedTable
          else Inr (no_rows (length (filter (\<lambda>c. c_id c = cid) (chats d))),
                    d\<lparr>chats := map (\<lambda>c. if c_id c = cid then c\<lparr>c_updated_at := t\<rparr> else c)
                                    (chats d)\<rparr>)
      | InsertMessage r \<Rightarrow>
          if \<not> has_messages d then Inl UndefinedTable
          else if m_id r < - (2 ^ 63) \<or> 2 ^ 63 \<le> m_id r then Inl NumericValueOutOfRange
          else if 36 < length (m_chat_id r) \<or> 50 < length (m_role r)
            then Inl StringDataRightTruncation
          else if (m_chat_id r, m_id r) \<in> set (message_keys d) then Inl UniqueViolation
          else if m_chat_id r \<notin> set (chat_ids d) then Inl ForeignKeyViolation
          else Inr (no_rows 1, d\<lparr>messages := messages d @ [r]\<rparr>)
      | SelectChat cid \<Rightarrow>
          if \<not> has_chats d then Inl UndefinedTable
          else (let rows = filter (\<lambda>c. c_id c = cid) (chats d)
                in Inr (\<lparr>rowcount = length rows, chat_rows = rows, message_rows = []\<rparr>, d))
      | SelectMessages cid \<Rightarrow>
          if \<not> has_messages d then Inl UndefinedTable
          else (let rows = sort_key (\<lambda>m. epoch_micros (m_created_at m))
                             (filter (\<lambda>m. m_chat_id m = cid) (messages d))
                in Inr (\<lparr>rowcount = length rows, chat_rows = [], message_rows = rows\<rparr>, d))
      | DeleteChat cid \<Rightarrow>
          if \<not> has_chats d then Inl UndefinedTable
          else Inr (no_rows (length (filter (\<lambda>c. c_id c = cid) (chats d))),
                    d\<lparr>chats := filter (\<lambda>c. c_id c \<noteq> cid) (chats d),
                       messages := filter (\<lambda>m. m_chat_id m \<noteq> cid) (messages d)\<rparr>))"

subsection \<open>The client and its environment\<close>

datatype exn =
    StoreError store_error
  | ConnectError
  | ChatNotFound string
  | NotAvailable int
  | JSONDecodeError
  | SleepValueError
  | AttributeError

datatype log_level = Info | Warning | Error

text \<open>
  A log record: the level, the fixed part of the message, and the exception the call
  reports (\<open>str(e)\<close> in the message, or the traceback of \<open>logger.exception\<close>).
\<close>

datatype log_entry = Log log_level string "exn option"

datatype connection = Open | Closed

text \<open>
  What the outside world does to the next round trip: let it through, make it raise, or
  make it raise and leave the connection closed. \<open>psycopg.connect\<close> and every
  \<open>cursor.execute\<close> on an open connection take the next event of the script \<open>faults\<close>;
  an exhausted script lets everything through.
\<close>

datatype event = Proceed | Fail | Drop

record world =
  conn :: "connection option"
  is_query_service_ready :: bool
  tables_created :: bool
  db :: database
  faults :: "event list"
  sent :: "statement list"
  slept :: "rat list"
  log :: "log_entry list"

definition logger :: "log_level \<Rightarrow> string \<Rightarrow> exn option \<Rightarrow> world \<Rightarrow> world" where
  "logger l msg e w = w\<lparr>log := log w @ [Log l msg e]\<rparr>"

definition next_event :: "world \<Rightarrow> event \<times> world" where
  "next_event w = (case faults w of [] \<Rightarrow> (Proceed, w) | e # es \<Rightarrow> (e, w\<lparr>faults := es\<rparr>))"

text \<open>
  \<open>with self.conn.cursor() as cursor: cursor.execute(...)\<close>. A closed connection
  refuses to open a cursor; an open one sends the statement.
\<close>

definition cursor_execute :: "statement \<Rightarrow> world \<Rightarrow> (exn + cursor) \<times> world" where
  "cursor_execute s w =
     (case conn w of
        None \<Rightarrow> (Inl AttributeError, w)
      | Some Closed \<Rightarrow> (Inl (StoreError ConnectionClosed), w)
      | Some Open \<Rightarrow>
          (case next_event (w\<lparr>sent := sent w @ [s]\<rparr>) of
             (Fail, w1) \<Rightarrow> (Inl (StoreError ServerFault), w1)
           | (Drop, w1) \<Rightarrow> (Inl (StoreError ConnectionLost), w1\<lparr>conn := Some Closed\<rparr>)
           | (Proceed, w1) \<Rightarrow>
               (case run_stmt s (db w1) of
                  Inl e \<Rightarrow> (Inl (StoreError e), w1)
                | Inr (cur, d) \<Rightarrow> (Inr cur, w1\<lparr>db := d\<rparr>))))"

fun execute_all :: "statement list \<Rightarrow> world \<Rightarrow> (exn + unit) \<times> world" where
  "execute_all [] w = (Inr (), w)"
| "execute_all (s # ss) w =
     (case cursor_execute s w of
        (Inl e, w1) \<Rightarrow> (Inl e, w1)
      | (Inr _, w1) \<Rightarrow> execute_all ss w1)"

text \<open>The statements of \<open>init\<close>, in the order the source sends them.\<close>

definition init_statements :: "statement list" where
  "init_statements =
     [CreateSchema, CreateChats, CreateMessages, CreateIdxChatId, CreateIdxCreatedAt]"

text \<open>
  The body of \<open>init\<close> after its connection check: skip when the flag is set, otherwise
  run the five \<open>CREATE\<close> statements, log and re-raise on failure.
\<close>

definition init_tables :: "world \<Rightarrow> (exn + unit) \<times> world" where
  "init_tables w =
     (if tables_created w then (Inr (), w)
      else
        (case execute_all init_statements w of
           (Inl e, w1) \<Rightarrow> (Inl e, logger Error ''Error initializing tables'' (Some e) w1)
         | (Inr _, w1) \<Rightarrow>
             (Inr (), logger Info ''Database tables initialized successfully'' None
                        (w1\<lparr>tables_created := True\<rparr>))))"

text \<open>
  \<open>connect\<close>: open a connection, then call \<open>init\<close> and swallow its failure. The handle is
  assigned before \<open>init\<close> runs, so the inner \<open>init\<close> never connects again and is
  \<open>init_tables\<close>.
\<close>

definition connect :: "world \<Rightarrow> (exn + unit) \<times> world" where
  "connect w =
     (case next_event w of
        (Proceed, w1) \<Rightarrow>
          (let w2 = w1\<lparr>conn := Some Open\<rparr>;
               w3 = (case init_tables w2 of
                       (Inl e, w') \<Rightarrow> logger Warning ''Tables not ready yet'' (Some e) w'
                     | (Inr _, w') \<Rightarrow> w')
           in (Inr (), logger Info ''Connected to PostgreSQL database'' None w3))
      | (_, w1) \<Rightarrow>
          (Inl ConnectError, logger Warning ''Database connection failed'' (Some ConnectError) w1))"

definition init :: "world \<Rightarrow> (exn + unit) \<times> world" where
  "init w =
     (case conn w of
        None \<Rightarrow>
          (case connect w of
             (Inl e, w1) \<Rightarrow> (Inl e, w1)
           | (Inr _, w1) \<Rightarrow> init_tables w1)
      | Some _ \<Rightarrow> init_tables w)"

text \<open>
  The retry loop of \<open>await_up\<close>, with the number of attempts left as the recursion
  argument. \<open>time.sleep\<close> refuses a negative delay. The delays are rationals: under the
  default policy every delay and every partial sum is a dyadic rational that binary
  floating point represents exactly.
\<close>

fun await_loop :: "nat \<Rightarrow> int \<Rightarrow> rat \<Rightarrow> rat \<Rightarrow> world \<Rightarrow> (exn + unit) \<times> world" where
  "await_loop 0 max_retries delay max_delay w = (Inl (NotAvailable max_retries), w)"
| "await_loop (Suc k) max_retries delay max_delay w =
     (case cursor_execute Select1 w of
        (Inr _, w1) \<Rightarrow>
          (Inr (), logger Info ''PostgreSQL database is ready'' None
                     (w1\<lparr>is_query_service_ready := True\<rparr>))
      | (Inl e, w1) \<Rightarrow>
          (let w2 = logger Warning ''PostgreSQL database not available yet'' (Some e) w1
           in if delay < 0 then (Inl SleepValueError, w2)
              else
                (let w3 = w2\<lparr>slept := slept w2 @ [delay]\<rparr>;
                     w4 = (if conn w3 = Some Closed then snd (connect w3) else w3)
                 in await_loop k max_retries (min max_delay (delay * 1.5)) max_delay w4)))"

definition await_up :: "int \<Rightarrow> rat \<Rightarrow> rat \<Rightarrow> world \<Rightarrow> (exn + unit) \<times> world" where
  "await_up max_retries initial_delay max_delay w =
     (if is_query_service_ready w then (Inr (), w)
      else
        (case (if conn w = None then connect w else (Inr (), w)) of
           (Inl e, w1) \<Rightarrow> (Inl e, w1)
         | (Inr _, w1) \<Rightarrow> await_loop (nat max_retries) max_retries initial_delay max_delay w1))"

text \<open>The default policy: \<open>max_retries = 30\<close>, \<open>initial_delay = 1.0\<close>, \<open>max_delay = 10.0\<close>.\<close>

definition await_up_default :: "world \<Rightarrow> (exn + unit) \<times> world" where
  "await_up_default = await_up 30 1 10"

subsection \<open>The store operations\<close>

text \<open>
  Every operation starts with \<open>if not self.conn or self.conn.closed: self.connect()\<close>
  followed by \<open>self.init()\<close>, outside its \<open>try\<close> block.
\<close>

definition ensure_connection :: "world \<Rightarrow> (exn + unit) \<times> world" where
  "ensure_connection w = (if conn w = Some Open then (Inr (), w) else connect w)"

definition begin_operation :: "world \<Rightarrow> (exn + unit) \<times> world" where
  "begin_operation w =
     (case ensure_connection w of
        (Inl e, w1) \<Rightarrow> (Inl e, w1)
      | (Inr _, w1) \<Rightarrow> init w1)"

text \<open>\<open>metadata or {}\<close>: \<open>None\<close> and the empty map both give the empty map.\<close>

definition metadata_or_empty :: "(string \<times> json) list option \<Rightarrow> json" where
  "metadata_or_empty metadata = (case metadata of None \<Rightarrow> JObj [] | Some m \<Rightarrow> JObj m)"


text \<open>The dictionary \<open>get_chat\<close> returns.\<close>

record chat_data =
  cd_id :: string
  cd_created_at :: string
  cd_updated_at :: string
  cd_metadata :: json

text \<open>
  \<open>get_chat\<close>. The query and the conversion of the row are inside \<open>try\<close>; the handler
  logs a warning and returns \<open>None\<close>.
\<close>

definition get_chat :: "string \<Rightarrow> world \<Rightarrow> (exn + chat_data option) \<times> world" where
  "get_chat chat_id w =
     (case begin_operation w of
        (Inl e, w1) \<Rightarrow> (Inl e, w1)
      | (Inr _, w1) \<Rightarrow>
          (case cursor_execute (SelectChat chat_id) w1 of
             (Inl e, w2) \<Rightarrow> (Inr None, logger Warning ''Failed to get chat'' (Some e) w2)
           | (Inr cur, w2) \<Rightarrow>
               (case chat_rows cur of
                  [] \<Rightarrow> (Inr None, w2)
                | r # _ \<Rightarrow>
                    (case json_loads (c_metadata r) of
                       None \<Rightarrow>
                         (Inr None, logger Warning ''Failed to get chat'' (Some JSONDecodeError) w2)
                     | Some md \<Rightarrow>
                         (Inr (Some \<lparr>cd_id = c_id r,
                                     cd_created_at = isoformat (c_created_at r),
                                     cd_updated_at = isoformat (c_updated_at r),
                                     cd_metadata = md\<rparr>), w2)))))"

text \<open>
  \<open>add_message\<close>. Everything after the connection check and \<open>init\<close> is inside \<open>try\<close>;
  the handler logs with \<open>logger.exception\<close> and re-raises. The result of the one
  \<open>datetime.utcnow()\<close> call is the argument \<open>now\<close>.
\<close>

definition add_message ::
  "string \<Rightarrow> string \<Rightarrow> string \<Rightarrow> (string \<times> json) list option \<Rightarrow> datetime \<Rightarrow> world
     \<Rightarrow> (exn + int \<times> string) \<times> world" where
  "add_message chat_id role content metadata now w =
     (case begin_operation w of
        (Inl e, w1) \<Rightarrow> (Inl e, w1)
      | (Inr _, w1) \<Rightarrow>
          (case get_chat chat_id w1 of
             (Inl e, w2) \<Rightarrow> (Inl e, logger Error ''Failed to add message.'' (Some e) w2)
           | (Inr None, w2) \<Rightarrow>
               (Inl (ChatNotFound chat_id),
                logger Error ''Failed to add message.'' (Some (ChatNotFound chat_id)) w2)
           | (Inr (Some chat), w2) \<Rightarrow>
               (case cursor_execute (UpdateChatTs now chat_id) w2 of
                  (Inl e, w3) \<Rightarrow> (Inl e, logger Error ''Failed to add message.'' (Some e) w3)
                | (Inr _, w3) \<Rightarrow>
                    (let message_id = message_id_of now in
                     case cursor_execute
                            (InsertMessage \<lparr>m_id = message_id, m_chat_id = chat_id, m_role = role,
                                            m_content = content, m_created_at = now,
                                            m_metadata = json_dumps (metadata_or_empty metadata)\<rparr>)
                            w3 of
                       (Inl e, w4) \<Rightarrow>
                         (Inl e, logger Error ''Failed to add message.'' (Some e) w4)
                     | (Inr _, w4) \<Rightarrow>
                         (Inr (message_id, isoformat now),
                          logger Info ''Added message'' None w4)))))"

text \<open>The dictionaries \<open>get_messages\<close> returns.\<close>

record message_data =
  md_id :: int
  md_chat_id :: string
  md_role :: string
  md_content :: string
  md_created_at :: string
  md_metadata :: json

definition message_of_row :: "message_row \<Rightarrow> message_data option" where
  "message_of_row r =
     (case json_loads (m_metadata r) of
        None \<Rightarrow> None
      | Some md \<Rightarrow>
          Some \<lparr>md_id = m_id r, md_chat_id = m_chat_id r, md_role = m_role r,
                md_content = m_content r, md_created_at = isoformat (m_created_at r),
                md_metadata = md\<rparr>)"

fun convert_rows :: "message_row list \<Rightarrow> message_data list option" where
  "convert_rows [] = Some []"
| "convert_rows (r # rs) =
     (case message_of_row r of
        None \<Rightarrow> None
      | Some m \<Rightarrow> (case convert_rows rs of None \<Rightarrow> None | Some ms \<Rightarrow> Some (m # ms)))"

text \<open>
  \<open>get_messages\<close>: connection check, \<open>init\<close>, \<open>await_up()\<close>, then the query and the
  conversion loop inside \<open>try\<close>; the handler logs and re-raises.
\<close>

definition get_messages :: "string \<Rightarrow> world \<Rightarrow> (exn + message_data list) \<times> world" where
  "get_messages chat_id w =
     (case begin_operation w of
        (Inl e, w1) \<Rightarrow> (Inl e, w1)
      | (Inr _, w1) \<Rightarrow>
          (case await_up_default w1 of
             (Inl e, w2) \<Rightarrow> (Inl e, w2)
           | (Inr _, w2) \<Rightarrow>
               (case cursor_execute (SelectMessages chat_id) w2 of
                  (Inl e, w3) \<Rightarrow> (Inl e, logger Error ''Failed to get messages.'' (Some e) w3)
                | (Inr cur, w3) \<Rightarrow>
                    (case convert_rows (message_rows cur) of
                       None \<Rightarrow>
                         (Inl JSONDecodeError,
                          logger Error ''Failed to get messages.'' (Some JSONDecodeError) w3)
                     | Some ms \<Rightarrow> (Inr ms, w3)))))"

text \<open>
  \<open>delete_chat\<close>: connection check, \<open>init\<close>, \<open>await_up()\<close>, then look the chat up,
  delete it and read \<open>cursor.rowcount\<close>, inside \<open>try\<close>; the handler logs and re-raises.
\<close>

definition delete_chat :: "string \<Rightarrow> world \<Rightarrow> (exn + bool) \<times> world" where
  "delete_chat chat_id w =
     (case begin_operation w of
        (Inl e, w1) \<Rightarrow> (Inl e, w1)
      | (Inr _, w1) \<Rightarrow>
          (case await_up_default w1 of
             (Inl e, w2) \<Rightarrow> (Inl e, w2)
           | (Inr _, w2) \<Rightarrow>
               (case get_chat chat_id w2 of
                  (Inl e, w3) \<Rightarrow> (Inl e, logger Error ''Failed to delete chat.'' None w3)
                | (Inr None, w3) \<Rightarrow> (Inr False, w3)
                | (Inr (Some chat), w3) \<Rightarrow>
                    (case cursor_execute (DeleteChat chat_id) w3 of
                       (Inl e, w4) \<Rightarrow> (Inl e, logger Error ''Failed to delete chat.'' None w4)
                     | (Inr cur, w4) \<Rightarrow>
                         if 0 < rowcount cur
                         then (Inr True, logger Info ''Deleted chat and its messages'' None w4)
                         else (Inr False, w4)))))"


text \<open>
  The delays the loop sleeps when \<open>k\<close> attempts in a row fail, starting from \<open>delay\<close>.
\<close>

fun backoff_delays :: "nat \<Rightarrow> rat \<Rightarrow> rat \<Rightarrow> rat list" where
  "backoff_delays 0 delay max_delay = []"
| "backoff_delays (Suc k) delay max_delay =
     delay # backoff_delays k (min max_delay (delay * 1.5)) max_delay"

subsection \<open>Observations\<close>

text \<open>The rows of the two tables, and the statements that can change them.\<close>

definition stored_rows :: "world \<Rightarrow> chat_row list \<times> message_row list" where
  "stored_rows w = (chats (db w), messages (db w))"

definition is_row_write :: "statement \<Rightarrow> bool" where
  "is_row_write s =
     (case s of InsertChat _ \<Rightarrow> True | UpdateChatTs _ _ \<Rightarrow> True | InsertMessage _ \<Rightarrow> True
      | DeleteChat _ \<Rightarrow> True | _ \<Rightarrow> False)"

text \<open>The statements sent between two worlds of one run.\<close>

definition sent_since :: "world \<Rightarrow> world \<Rightarrow> statement list" where
  "sent_since w w' = drop (length (sent w)) (sent w')"

definition only_reads :: "world \<Rightarrow> world \<Rightarrow> bool" where
  "only_reads w w' =
     (take (length (sent w)) (sent w') = sent w \<and>
      list_all (\<lambda>s. \<not> is_row_write s) (sent_since w w'))"

text \<open>The schema and both tables are there; the messages of one chat; the order of
  \<open>ORDER BY created_at ASC\<close>.\<close>

definition tables_exist :: "database \<Rightarrow> bool" where
  "tables_exist d = (has_schema d \<and> has_chats d \<and> has_messages d)"

definition chat_messages :: "string \<Rightarrow> world \<Rightarrow> message_row list" where
  "chat_messages chat_id w = filter (\<lambda>m. m_chat_id m = chat_id) (messages (db w))"

definition by_created_at :: "message_row list \<Rightarrow> message_row list" where
  "by_created_at rows = sort_key (\<lambda>m. epoch_micros (m_created_at m)) rows"

text \<open>The row \<open>add_message\<close> inserts, and what its \<open>UPDATE\<close> does to a row of \<open>chats\<close>.\<close>

definition new_message_row ::
  "string \<Rightarrow> string \<Rightarrow> string \<Rightarrow> (string \<times> json) list option \<Rightarrow> datetime \<Rightarrow> message_row" where
  "new_message_row chat_id role content metadata now =
     \<lparr>m_id = message_id_of now, m_chat_id = chat_id, m_role = role, m_content = content,
      m_created_at = now, m_metadata = json_dumps (metadata_or_empty metadata)\<rparr>"

definition touch_chat :: "datetime \<Rightarrow> string \<Rightarrow> chat_row \<Rightarrow> chat_row" where
  "touch_chat now chat_id c = (if c_id c = chat_id then c\<lparr>c_updated_at := now\<rparr> else c)"

subsection \<open>Example worlds\<close>

definition empty_db :: database where
  "empty_db = \<lparr>has_schema = True, has_chats = True, has_messages = True,
                has_idx_chat_id = True, has_idx_created_at = True, chats = [], messages = []\<rparr>"

text \<open>A connected client whose next two round trips fail.\<close>

definition flaky_world :: world where
  "flaky_world = \<lparr>conn = Some Open, is_query_service_ready = False, tables_created = True,
                   db = empty_db, faults = [Fail, Fail, Proceed], sent = [], slept = [],
                   log = []\<rparr>"

text \<open>A connected client whose next thirty round trips fail.\<close>

definition down_world :: world where
  "down_world = \<lparr>conn = Some Open, is_query_service_ready = False, tables_created = True,
                  db = empty_db, faults = replicate 30 Fail, sent = [], slept = [], log = []\<rparr>"

text \<open>A client in steady state holding one chat, and a client that has never connected
  and whose first connection attempt fails.\<close>

definition sample_time :: datetime where
  "sample_time = \<lparr>year = 2024, month = 3, day = 9, hour = 7, minute = 5, second = 0,
                   microsecond = 1500\<rparr>"

definition sample_chat :: chat_row where
  "sample_chat = \<lparr>c_id = ''chat-a'', c_created_at = sample_time, c_updated_at = sample_time,
                   c_metadata = ''{}''\<rparr>"

definition steady_world :: world where
  "steady_world = \<lparr>conn = Some Open, is_query_service_ready = True, tables_created = True,
                    db = empty_db\<lparr>chats := [sample_chat]\<rparr>, faults = [], sent = [], slept = [],
                    log = []\<rparr>"

definition offline_world :: world where
  "offline_world = \<lparr>conn = None, is_query_service_ready = False, tables_created = False,
                     db = empty_db\<lparr>chats := [sample_chat]\<rparr>, faults = [Fail], sent = [],
                     slept = [], log = []\<rparr>"

text \<open>The steady client, with the next round trip failing.\<close>

definition faulty_world :: world where
  "faulty_world = steady_world\<lparr>faults := [Fail]\<rparr>"

text \<open>A steady client whose \<open>messages\<close> table holds two messages of one chat, the later
  one stored first.\<close>

definition later_message :: message_row where
  "later_message = \<lparr>m_id = 1709967900001, m_chat_id = ''chat-a'', m_role = ''assistant'',
                     m_content = ''second'', m_created_at = sample_time, m_metadata = ''{}''\<rparr>"

definition earlier_message :: message_row where
  "earlier_message = \<lparr>m_id = 1709967899000, m_chat_id = ''chat-a'', m_role = ''user'',
                       m_content = ''first'',
                       m_created_at = sample_time\<lparr>minute := 4, second := 59, microsecond := 0\<rparr>,
                       m_metadata = ''{}''\<rparr>"

definition two_message_world :: world where
  "two_message_world =
     steady_world\<lparr>db := (db steady_world)\<lparr>messages := [later_message, earlier_message]\<rparr>\<rparr>"


section \<open>What each step leaves unchanged\<close>

text \<open>
  The connection check, \<open>init\<close>, the readiness loop and every query leave the rows of
  both tables as they are; once the bootstrap flag is set they leave the whole database
  as it is. A connection check and \<open>init\<close> that return normally leave an open connection
  and the flag set.
\<close>

lemma stored_rows_logger [simp]: "stored_rows (logger l m e w) = stored_rows w"
  by (simp add: stored_rows_def logger_def)

lemma db_logger [simp]: "db (logger l m e w) = db w"
  and conn_logger [simp]: "conn (logger l m e w) = conn w"
  and faults_logger [simp]: "faults (logger l m e w) = faults w"
  and sent_logger [simp]: "sent (logger l m e w) = sent w"
  and slept_logger [simp]: "slept (logger l m e w) = slept w"
  and ready_logger [simp]: "is_query_service_ready (logger l m e w) = is_query_service_ready w"
  and created_logger [simp]: "tables_created (logger l m e w) = tables_created w"
  and log_logger [simp]: "log (logger l m e w) = log w @ [Log l m e]"
  by (simp_all add: logger_def)

lemma run_stmt_read_rows:
  "\<not> is_row_write s \<Longrightarrow> run_stmt s d = Inr (cur, d') \<Longrightarrow>
     chats d' = chats d \<and> messages d' = messages d"
  by (cases s) (auto simp: run_stmt_def is_row_write_def Let_def split: if_splits)

lemma cursor_execute_cases:
  "cursor_execute s w = (r, w') \<Longrightarrow>
     (conn w = None \<and> r = Inl AttributeError \<and> w' = w) \<or>
     (conn w = Some Closed \<and> r = Inl (StoreError ConnectionClosed) \<and> w' = w) \<or>
     (conn w = Some Open \<and>
        ((\<exists>fs. faults w = Fail # fs \<and> r = Inl (StoreError ServerFault) \<and>
                w' = w\<lparr>sent := sent w @ [s], faults := fs\<rparr>) \<or>
         (\<exists>fs. faults w = Drop # fs \<and> r = Inl (StoreError ConnectionLost) \<and>
                w' = w\<lparr>sent := sent w @ [s], faults := fs, conn := Some Closed\<rparr>) \<or>
         (\<exists>e. run_stmt s (db w) = Inl e \<and> r = Inl (StoreError e) \<and>
                w' = w\<lparr>sent := sent w @ [s], faults := tl (faults w)\<rparr>) \<or>
         (\<exists>cur d. run_stmt s (db w) = Inr (cur, d) \<and> r = Inr cur \<and>
                w' = w\<lparr>sent := sent w @ [s], faults := tl (faults w), db := d\<rparr>)))"
  by (auto simp: cursor_execute_def next_event_def
      split: option.splits connection.splits list.splits event.splits sum.splits)

lemma cursor_execute_frame:
  assumes "cursor_execute s w = (r, w')"
  shows "slept w' = slept w" "log w' = log w" "tables_created w' = tables_created w"
    "is_query_service_ready w' = is_query_service_ready w"
  using cursor_execute_cases [OF assms] by auto

lemma cursor_execute_rows:
  assumes "cursor_execute s w = (r, w')" "\<not> is_row_write s"
  shows "stored_rows w' = stored_rows w"
  using cursor_execute_cases [OF assms(1)] run_stmt_read_rows [OF assms(2)]
  by (auto simp: stored_rows_def)

lemma run_stmt_select_db:
  "s = Select1 \<or> s = SelectChat c \<or> s = SelectMessages c \<Longrightarrow> run_stmt s d = Inr (cur, d') \<Longrightarrow> d' = d"
  by (auto simp: run_stmt_def Let_def split: if_splits)

lemma execute_all_frame:
  "execute_all ss w = (r, w') \<Longrightarrow> \<forall>s\<in>set ss. \<not> is_row_write s \<Longrightarrow>
     stored_rows w' = stored_rows w \<and> slept w' = slept w \<and> log w' = log w \<and>
     tables_created w' = tables_created w \<and>
     is_query_service_ready w' = is_query_service_ready w"
proof (induction ss arbitrary: w)
  case Nil
  then show ?case by simp
next
  case (Cons s ss)
  obtain r1 w1 where e: "cursor_execute s w = (r1, w1)" by force
  from Cons.prems have nw: "\<not> is_row_write s" by simp
  note f = cursor_execute_frame [OF e] cursor_execute_rows [OF e nw]
  show ?case
  proof (cases r1)
    case (Inl x)
    with Cons.prems e f show ?thesis by auto
  next
    case (Inr c)
    with Cons.prems e have "execute_all ss w1 = (r, w')" by simp
    from Cons.IH [OF this] Cons.prems f show ?thesis by simp
  qed
qed

lemma execute_all_conn:
  "execute_all ss w = (Inr u, w') \<Longrightarrow> conn w' = conn w \<and> (ss \<noteq> [] \<longrightarrow> conn w = Some Open)"
proof (induction ss arbitrary: w)
  case Nil
  then show ?case by simp
next
  case (Cons s ss)
  obtain r1 w1 where e: "cursor_execute s w = (r1, w1)" by force
  show ?case
  proof (cases r1)
    case (Inl x)
    with Cons.prems e show ?thesis by simp
  next
    case (Inr c)
    with Cons.prems e have "execute_all ss w1 = (Inr u, w')" by simp
    from Cons.IH [OF this] cursor_execute_cases [OF e] Inr show ?thesis by auto
  qed
qed

lemma ddl_not_row_write: "\<forall>s\<in>set init_statements. \<not> is_row_write s"
  by (simp add: is_row_write_def init_statements_def)

lemma init_statements_nonempty: "init_statements \<noteq> []"
  by (simp add: init_statements_def)

lemma cursor_execute_conn_some:
  "cursor_execute s w = (r, w') \<Longrightarrow> conn w \<noteq> None \<Longrightarrow> conn w' \<noteq> None"
  by (drule cursor_execute_cases) auto

lemma execute_all_conn_some:
  "execute_all ss w = (r, w') \<Longrightarrow> conn w \<noteq> None \<Longrightarrow> conn w' \<noteq> None"
proof (induction ss arbitrary: w)
  case Nil
  then show ?case by simp
next
  case (Cons s ss)
  obtain r1 w1 where e: "cursor_execute s w = (r1, w1)" by force
  from cursor_execute_conn_some [OF e] Cons.prems have "conn w1 \<noteq> None" by simp
  with Cons e show ?case by (cases r1) auto
qed

lemma init_tables_frame:
  assumes "init_tables w = (r, w')"
  shows "stored_rows w' = stored_rows w" "slept w' = slept w"
    "is_query_service_ready w' = is_query_service_ready w"
    "tables_created w \<Longrightarrow> w' = w" "r = Inr u \<Longrightarrow> tables_created w'"
    "r = Inr u \<Longrightarrow> conn w' = conn w" "r = Inr u \<Longrightarrow> \<not> tables_created w \<Longrightarrow> conn w = Some Open"
    "conn w \<noteq> None \<Longrightarrow> conn w' \<noteq> None" "r = Inl x \<Longrightarrow> \<not> tables_created w'"
proof -
  obtain r1 w1 where e: "execute_all init_statements w = (r1, w1)"
    by force
  note f = execute_all_frame [OF e ddl_not_row_write]
  have w': "w' = (if tables_created w then w
                  else case r1 of Inl x \<Rightarrow> logger Error ''Error initializing tables'' (Some x) w1
                       | Inr _ \<Rightarrow> logger Info ''Database tables initialized successfully'' None
                           (w1\<lparr>tables_created := True\<rparr>))"
    and r: "r = (if tables_created w then Inr () else case r1 of Inl x \<Rightarrow> Inl x | Inr _ \<Rightarrow> Inr ())"
    using assms e by (auto simp: init_tables_def split: sum.splits if_splits)
  show "stored_rows w' = stored_rows w" "slept w' = slept w"
    "is_query_service_ready w' = is_query_service_ready w"
    "tables_created w \<Longrightarrow> w' = w" "r = Inr u \<Longrightarrow> tables_created w'"
    using w' r f by (auto simp: stored_rows_def split: sum.splits)
  show "conn w \<noteq> None \<Longrightarrow> conn w' \<noteq> None"
    using w' execute_all_conn_some [OF e] by (auto split: sum.splits)
  show "r = Inl x \<Longrightarrow> \<not> tables_created w'"
    using w' r f by (auto split: sum.splits if_splits)
  {
    assume "r = Inr u" "\<not> tables_created w"
    with r obtain v where "r1 = Inr v" by (cases r1) auto
    with e have "execute_all init_statements w = (Inr v, w1)"
      by simp
    from execute_all_conn [OF this] init_statements_nonempty
    have "conn w1 = conn w" "conn w = Some Open" by simp_all
  } note ok = this
  show "r = Inr u \<Longrightarrow> conn w' = conn w"
    using w' r ok by (cases "tables_created w") (auto split: sum.splits)
  show "r = Inr u \<Longrightarrow> \<not> tables_created w \<Longrightarrow> conn w = Some Open"
    using ok by simp
qed

lemma connect_frame:
  assumes "connect w = (r, w')"
  shows "stored_rows w' = stored_rows w" "slept w' = slept w"
    "is_query_service_ready w' = is_query_service_ready w"
    "tables_created w \<Longrightarrow> db w' = db w \<and> tables_created w'"
    "r = Inr u \<Longrightarrow> conn w' \<noteq> None" "r = Inr u \<Longrightarrow> tables_created w' \<Longrightarrow> conn w' = Some Open"
proof -
  obtain ev w0 where n: "next_event w = (ev, w0)" by force
  then have w0: "w0 = w\<lparr>faults := tl (faults w)\<rparr>"
    by (auto simp: next_event_def split: list.splits)
  obtain r1 w1 where i: "init_tables (w0\<lparr>conn := Some Open\<rparr>) = (r1, w1)" by force
  note f = init_tables_frame [OF i]
  have c: "w' = (if ev = Proceed then logger Info ''Connected to PostgreSQL database'' None
                  (case r1 of Inl e \<Rightarrow> logger Warning ''Tables not ready yet'' (Some e) w1 | Inr _ \<Rightarrow> w1)
                else logger Warning ''Database connection failed'' (Some ConnectError) w0)"
    and rr: "r = (if ev = Proceed then Inr () else Inl ConnectError)"
    using assms n i by (auto simp: connect_def Let_def split: event.splits sum.splits)
  show "stored_rows w' = stored_rows w" "slept w' = slept w"
    "is_query_service_ready w' = is_query_service_ready w"
    using c f(1-3) w0 by (auto simp: stored_rows_def split: sum.splits)
  show "tables_created w \<Longrightarrow> db w' = db w \<and> tables_created w'"
    using c f(4) w0 by (auto split: sum.splits)
  have cs: "conn w1 \<noteq> None" using f(8) by simp
  show "r = Inr u \<Longrightarrow> conn w' \<noteq> None"
    using c rr cs by (auto split: sum.splits if_splits)
  show "r = Inr u \<Longrightarrow> tables_created w' \<Longrightarrow> conn w' = Some Open"
  proof -
    assume a: "r = Inr u" "tables_created w'"
    with rr have p: "ev = Proceed" by (auto split: if_splits)
    show ?thesis
    proof (cases r1)
      case (Inl x)
      with a c p have "tables_created w1" by simp
      moreover from Inl f(9) have "\<not> tables_created w1" by simp
      ultimately show ?thesis by simp
    next
      case (Inr v)
      with f(6) [of v] c p show ?thesis by simp
    qed
  qed
qed

lemma init_frame:
  assumes "init w = (r, w')"
  shows "stored_rows w' = stored_rows w" "slept w' = slept w"
    "is_query_service_ready w' = is_query_service_ready w"
    "tables_created w \<Longrightarrow> db w' = db w \<and> tables_created w'"
    "r = Inr u \<Longrightarrow> tables_created w'"
    "conn w \<noteq> None \<Longrightarrow> init w = init_tables w"
proof -
  show "conn w \<noteq> None \<Longrightarrow> init w = init_tables w"
    by (auto simp: init_def split: option.splits)
  have main: "stored_rows w' = stored_rows w \<and> slept w' = slept w \<and>
      is_query_service_ready w' = is_query_service_ready w \<and>
      (tables_created w \<longrightarrow> db w' = db w \<and> tables_created w') \<and> (r = Inr u \<longrightarrow> tables_created w')"
  proof (cases "conn w")
    case None
    obtain r1 w1 where c: "connect w = (r1, w1)" by force
    obtain r2 w2 where t: "init_tables w1 = (r2, w2)" by force
    note f = connect_frame [OF c] init_tables_frame [OF t]
    from assms None c t have "(r, w') = (case r1 of Inl e \<Rightarrow> (Inl e, w1) | Inr _ \<Rightarrow> (r2, w2))"
      by (cases r1) (auto simp: init_def)
    with f(1-4) f(7-11) show ?thesis
      by (cases r1) auto
  next
    case (Some a)
    with assms have t: "init_tables w = (r, w')" by (simp add: init_def)
    from init_tables_frame [OF t] show ?thesis by auto
  qed
  then show "stored_rows w' = stored_rows w" "slept w' = slept w"
    "is_query_service_ready w' = is_query_service_ready w"
    "tables_created w \<Longrightarrow> db w' = db w \<and> tables_created w'"
    "r = Inr u \<Longrightarrow> tables_created w'"
    by simp_all
qed

lemma ensure_connection_frame:
  assumes "ensure_connection w = (r, w')"
  shows "stored_rows w' = stored_rows w" "slept w' = slept w"
    "is_query_service_ready w' = is_query_service_ready w"
    "tables_created w \<Longrightarrow> db w' = db w \<and> tables_created w'"
    "r = Inr u \<Longrightarrow> conn w' \<noteq> None" "r = Inr u \<Longrightarrow> tables_created w' \<Longrightarrow> conn w' = Some Open"
proof -
  have main: "stored_rows w' = stored_rows w \<and> slept w' = slept w \<and>
    is_query_service_ready w' = is_query_service_ready w \<and>
    (tables_created w \<longrightarrow> db w' = db w \<and> tables_created w') \<and>
    (r = Inr u \<longrightarrow> conn w' \<noteq> None) \<and> (r = Inr u \<longrightarrow> tables_created w' \<longrightarrow> conn w' = Some Open)"
  proof (cases "conn w = Some Open")
    case True
    with assms show ?thesis by (auto simp: ensure_connection_def)
  next
    case False
    with assms have c: "connect w = (r, w')" by (simp add: ensure_connection_def)
    from connect_frame [OF c] show ?thesis by auto
  qed
  then show "stored_rows w' = stored_rows w" "slept w' = slept w"
    "is_query_service_ready w' = is_query_service_ready w"
    "tables_created w \<Longrightarrow> db w' = db w \<and> tables_created w'"
    "r = Inr u \<Longrightarrow> conn w' \<noteq> None" "r = Inr u \<Longrightarrow> tables_created w' \<Longrightarrow> conn w' = Some Open"
    by simp_all
qed

lemma begin_operation_frame:
  assumes "begin_operation w = (r, w')"
  shows "stored_rows w' = stored_rows w" "slept w' = slept w"
    "is_query_service_ready w' = is_query_service_ready w"
    "tables_created w \<Longrightarrow> db w' = db w \<and> tables_created w'"
    "r = Inr u \<Longrightarrow> conn w' = Some Open \<and> tables_created w'"
proof -
  obtain r1 w1 where c: "ensure_connection w = (r1, w1)" by force
  obtain r2 w2 where t: "init w1 = (r2, w2)" by force
  note f = ensure_connection_frame [OF c] and g = init_frame [OF t]
  have rw: "(r, w') = (case r1 of Inl e \<Rightarrow> (Inl e, w1) | Inr _ \<Rightarrow> (r2, w2))"
    using assms c t by (cases r1) (auto simp: begin_operation_def)
  have "stored_rows w' = stored_rows w \<and> slept w' = slept w \<and>
    is_query_service_ready w' = is_query_service_ready w \<and>
    (tables_created w \<longrightarrow> db w' = db w \<and> tables_created w')"
    using rw f(1-4) g(1-4) by (cases r1) auto
  then show "stored_rows w' = stored_rows w" "slept w' = slept w"
    "is_query_service_ready w' = is_query_service_ready w"
    "tables_created w \<Longrightarrow> db w' = db w \<and> tables_created w'"
    by simp_all
  show "r = Inr u \<Longrightarrow> conn w' = Some Open \<and> tables_created w'"
  proof -
    assume a: "r = Inr u"
    with rw obtain v where r1: "r1 = Inr v" by (cases r1) auto
    with rw a have r2: "r2 = Inr u" "w' = w2" by auto
    from f(5) [OF r1] have cs: "conn w1 \<noteq> None" .
    with g(6) t have it: "init_tables w1 = (r2, w2)" by simp
    note h = init_tables_frame [OF it]
    from h(5) [OF r2(1)] have tc: "tables_created w2" .
    have "conn w1 = Some Open"
    proof (cases "tables_created w1")
      case True
      with f(6) [OF r1] show ?thesis by simp
    next
      case False
      with h(7) [OF r2(1)] show ?thesis by simp
    qed
    with h(6) [OF r2(1)] tc r2 show ?thesis by simp
  qed
qed

lemma begin_operation_steady:
  "conn w = Some Open \<Longrightarrow> tables_created w \<Longrightarrow> begin_operation w = (Inr (), w)"
  by (simp add: begin_operation_def ensure_connection_def init_def init_tables_def)

lemma select_cases:
  assumes "cursor_execute s w = (r, w')" "s = Select1 \<or> s = SelectChat c \<or> s = SelectMessages c"
  shows "db w' = db w" "tables_created w' = tables_created w" "slept w' = slept w"
    "is_query_service_ready w' = is_query_service_ready w"
    "r = Inr cur \<Longrightarrow> conn w' = Some Open" "r = Inr cur \<Longrightarrow> conn w = Some Open"
    "r = Inr cur \<Longrightarrow> run_stmt s (db w) = Inr (cur, db w)"
  using cursor_execute_cases [OF assms(1)] run_stmt_select_db [OF assms(2)]
  by auto

lemma await_loop_frame:
  "await_loop k mr delay max_delay w = (r, w') \<Longrightarrow>
     stored_rows w' = stored_rows w \<and>
     (tables_created w \<longrightarrow> db w' = db w \<and> tables_created w') \<and>
     (r = Inr u \<longrightarrow> conn w' = Some Open \<and> is_query_service_ready w') \<and>
     (r = Inl (NotAvailable n) \<longrightarrow> slept w' = slept w @ backoff_delays k delay max_delay)"
proof (induction k arbitrary: delay w)
  case 0
  then show ?case by auto
next
  case (Suc k)
  obtain r1 w1 where e: "cursor_execute Select1 w = (r1, w1)" by force
  note f = select_cases [OF e, of "[]", simplified]
  show ?case
  proof (cases r1)
    case (Inr cur)
    with Suc.prems e f show ?thesis by (auto simp: stored_rows_def)
  next
    case (Inl x)
    define w2 where "w2 = logger Warning ''PostgreSQL database not available yet'' (Some x) w1"
    define w3 where "w3 = w2\<lparr>slept := slept w2 @ [delay]\<rparr>"
    define w4 where "w4 = (if conn w3 = Some Closed then snd (connect w3) else w3)"
    have w3: "db w3 = db w" "tables_created w3 = tables_created w" "slept w3 = slept w @ [delay]"
      using f by (simp_all add: w3_def w2_def)
    have w4: "stored_rows w4 = stored_rows w" "slept w4 = slept w @ [delay]"
      "tables_created w \<Longrightarrow> db w4 = db w \<and> tables_created w4"
      using w3 connect_frame [of w3 "fst (connect w3)" "snd (connect w3)"]
      by (auto simp: w4_def stored_rows_def)
    show ?thesis
    proof (cases "delay < 0")
      case True
      with Suc.prems e Inl f show ?thesis
        by (auto simp: stored_rows_def Let_def)
    next
      case False
      have "await_loop (Suc k) mr delay max_delay w =
              await_loop k mr (min max_delay (delay * 1.5)) max_delay w4"
        unfolding w4_def w3_def w2_def using e Inl False by (simp add: Let_def)
      with Suc.prems
      have "await_loop k mr (min max_delay (delay * 1.5)) max_delay w4 = (r, w')"
        by simp
      from Suc.IH [OF this] w4 show ?thesis by auto
    qed
  qed
qed

lemma await_up_frame:
  assumes "await_up mr d md w = (r, w')"
  shows "stored_rows w' = stored_rows w"
    "tables_created w \<Longrightarrow> db w' = db w \<and> tables_created w'"
    "r = Inr u \<Longrightarrow> conn w = Some Open \<Longrightarrow> conn w' = Some Open"
    "r = Inl (NotAvailable n) \<Longrightarrow> slept w' = slept w @ backoff_delays (nat mr) d md"
proof -
  have main: "stored_rows w' = stored_rows w \<and>
    (tables_created w \<longrightarrow> db w' = db w \<and> tables_created w') \<and>
    (r = Inr u \<longrightarrow> conn w = Some Open \<longrightarrow> conn w' = Some Open) \<and>
    (r = Inl (NotAvailable n) \<longrightarrow> slept w' = slept w @ backoff_delays (nat mr) d md)"
  proof (cases "is_query_service_ready w")
    case True
    with assms show ?thesis by (auto simp: await_up_def)
  next
    case nr: False
    show ?thesis
    proof (cases "conn w = None")
      case False
      with nr assms have "await_loop (nat mr) mr d md w = (r, w')"
        by (simp add: await_up_def)
      from await_loop_frame [OF this] show ?thesis by auto
    next
      case True
      obtain r1 w1 where c: "connect w = (r1, w1)" by force
      note f = connect_frame [OF c]
      show ?thesis
      proof (cases r1)
        case (Inl x)
        with nr True assms c have "r = Inl ConnectError \<or> r = Inl x" "w' = w1"
          by (auto simp: await_up_def)
        moreover from c Inl have "x = ConnectError"
          by (auto simp: connect_def Let_def split: prod.splits event.splits)
        ultimately show ?thesis using f True by auto
      next
        case (Inr v)
        with nr True assms c have "await_loop (nat mr) mr d md w1 = (r, w')"
          by (simp add: await_up_def)
        from await_loop_frame [OF this] f True show ?thesis by auto
      qed
    qed
  qed
  then show "stored_rows w' = stored_rows w"
    "tables_created w \<Longrightarrow> db w' = db w \<and> tables_created w'"
    "r = Inr u \<Longrightarrow> conn w = Some Open \<Longrightarrow> conn w' = Some Open"
    "r = Inl (NotAvailable n) \<Longrightarrow> slept w' = slept w @ backoff_delays (nat mr) d md"
    by simp_all
qed

section \<open>Readiness polling\<close>

text \<open>
  C6. \<open>await_up\<close> with the default policy, on a connected client whose liveness probe
  fails twice and succeeds at the third attempt: it returns normally, has slept 1.0 and
  then 1.5 seconds (1.5 being 1.0 times 1.5, below the cap of 10), has sent exactly three
  probes and has set the readiness flag; a second call returns at once and leaves the
  world as it is, so no probe is sent.
\<close>

theorem await_up_third_attempt:
  assumes "conn w = Some Open" and "\<not> is_query_service_ready w"
    and "faults w = Fail # Fail # Proceed # fs"
  shows "case await_up_default w of (r, w') \<Rightarrow>
           r = Inr () \<and> slept w' = slept w @ [1, 1.5] \<and>
           slept w' = slept w @ backoff_delays 2 1 10 \<and>
           is_query_service_ready w' \<and>
           sent w' = sent w @ [Select1, Select1, Select1] \<and>
           await_up_default w' = (Inr (), w')"
  using assms
  by (simp add: await_up_default_def await_up_def eval_nat_numeral cursor_execute_def
      next_event_def logger_def run_stmt_def no_rows_def)

theorem await_up_third_attempt_witness:
  "conn flaky_world = Some Open \<and> \<not> is_query_service_ready flaky_world \<and>
   faults flaky_world = Fail # Fail # Proceed # [] \<and>
   (case await_up_default flaky_world of (r, w') \<Rightarrow>
      r = Inr () \<and> slept w' = [1, 1.5] \<and> is_query_service_ready w' \<and>
      sent w' = [Select1, Select1, Select1] \<and> await_up_default w' = (Inr (), w'))"
proof -
  have h: "conn flaky_world = Some Open" "\<not> is_query_service_ready flaky_world"
    "faults flaky_world = Fail # Fail # Proceed # []"
    by (simp_all add: flaky_world_def)
  from await_up_third_attempt [OF h] show ?thesis
    using h by (auto simp: flaky_world_def)
qed

lemma backoff_default: "backoff_delays 30 1 10 =
  [1, 3/2, 9/4, 27/8, 81/16, 243/32, 10, 10, 10, 10, 10, 10, 10, 10, 10, 10, 10, 10, 10, 10, 10, 10,
   10, 10, 10, 10, 10, 10, 10, 10]"
  by (simp add: eval_nat_numeral)

lemma backoff_default_sum: "sum_list (backoff_delays 30 1 10) = 8345 / 32"
  by (simp add: backoff_default)

lemma await_loop_all_fail:
  "conn w = Some Open \<Longrightarrow> faults w = replicate k Fail @ fs \<Longrightarrow> 0 \<le> d \<Longrightarrow> 0 \<le> md \<Longrightarrow>
     fst (await_loop k mr d md w) = Inl (NotAvailable mr)"
proof (induction k arbitrary: d w)
  case 0
  then show ?case by simp
next
  case (Suc k)
  let ?w1 = "w\<lparr>sent := sent w @ [Select1], faults := replicate k Fail @ fs\<rparr>"
  let ?w3 = "(logger Warning ''PostgreSQL database not available yet''
                (Some (StoreError ServerFault)) ?w1)\<lparr>slept := slept w @ [d]\<rparr>"
  have e: "cursor_execute Select1 w = (Inl (StoreError ServerFault), ?w1)"
    using Suc.prems by (simp add: cursor_execute_def next_event_def)
  have "await_loop (Suc k) mr d md w = await_loop k mr (min md (d * 1.5)) md ?w3"
    using e Suc.prems by (simp add: Let_def logger_def)
  moreover have "fst (await_loop k mr (min md (d * 1.5)) md ?w3) = Inl (NotAvailable mr)"
    using Suc.prems by (intro Suc.IH) (auto simp: logger_def)
  ultimately show ?case by simp
qed

lemma down_world_exhausts: "fst (await_up_default down_world) = Inl (NotAvailable 30)"
proof -
  have "fst (await_loop 30 30 1 10 down_world) = Inl (NotAvailable 30)"
    by (rule await_loop_all_fail [where fs = "[]"]) (simp_all add: down_world_def)
  then show ?thesis
    by (simp add: await_up_default_def await_up_def down_world_def)
qed

text \<open>
  C7 (as amended). Whenever \<open>await_up\<close> with the default policy gives up with the
  "not available" error, it has slept the thirty delays of the capped geometric sequence
  1, 1.5, 2.25, 3.375, 5.0625, 7.59375, 10, ..., 10 (the loop sleeps after every failed
  attempt, the last one included), which add up to 260.78125 seconds.
\<close>

theorem await_up_total_sleep:
  assumes "await_up_default w = (Inl (NotAvailable n), w')"
  shows "slept w' = slept w @ backoff_delays 30 1 10 \<and>
         sum_list (backoff_delays 30 1 10) = 260.78125 \<and>
         sum_list (slept w') = sum_list (slept w) + 260.78125"
proof -
  from assms have "await_up 30 1 10 w = (Inl (NotAvailable n), w')"
    by (simp add: await_up_default_def)
  from await_up_frame(4) [OF this] have "slept w' = slept w @ backoff_delays 30 1 10"
    by simp
  then show ?thesis by (simp add: backoff_default_sum)
qed

theorem await_up_total_sleep_witness:
  "await_up_default down_world = (Inl (NotAvailable 30), snd (await_up_default down_world)) \<and>
   slept (snd (await_up_default down_world)) = backoff_delays 30 1 10 \<and>
   sum_list (slept (snd (await_up_default down_world))) = 260.78125"
proof -
  have h: "await_up_default down_world = (Inl (NotAvailable 30), snd (await_up_default down_world))"
    using down_world_exhausts by (metis prod.collapse)
  from await_up_total_sleep [OF h] h show ?thesis
    by (simp add: down_world_def)
qed

text \<open>
  The total is not roughly 170 seconds: on a client whose thirty probes all fail it is
  260.78125 seconds, which is further than 85 seconds (half of 170) away from 170.
\<close>

theorem await_up_total_sleep_counterexample:
  "fst (await_up_default down_world) = Inl (NotAvailable 30) \<and>
   sum_list (slept (snd (await_up_default down_world))) = 260.78125 \<and>
   \<not> \<bar>sum_list (slept (snd (await_up_default down_world))) - 170\<bar> \<le> 85"
proof -
  obtain r w' where a: "await_up 30 1 10 down_world = (r, w')" by force
  with down_world_exhausts have r: "r = Inl (NotAvailable 30)"
    by (simp add: await_up_default_def)
  from await_up_frame(4) [OF a [unfolded r]]
  have "slept w' = backoff_delays 30 1 10" by (simp add: down_world_def)
  with a r show ?thesis
    by (simp add: await_up_default_def backoff_default_sum)
qed

section \<open>Statements sent\<close>

text \<open>
  \<open>only_reads w w'\<close>: going from \<open>w\<close> to \<open>w'\<close> the client has sent no \<open>INSERT\<close>,
  \<open>UPDATE\<close> or \<open>DELETE\<close>.
\<close>

lemma only_reads_iff:
  "only_reads w w' \<longleftrightarrow> (\<exists>xs. sent w' = sent w @ xs \<and> (\<forall>s\<in>set xs. \<not> is_row_write s))"
proof
  assume a: "only_reads w w'"
  then have "sent w' = sent w @ sent_since w w'"
    unfolding only_reads_def sent_since_def by (metis append_take_drop_id)
  with a show "\<exists>xs. sent w' = sent w @ xs \<and> (\<forall>s\<in>set xs. \<not> is_row_write s)"
    unfolding only_reads_def by (auto simp: list_all_iff)
next
  assume "\<exists>xs. sent w' = sent w @ xs \<and> (\<forall>s\<in>set xs. \<not> is_row_write s)"
  then show "only_reads w w'"
    by (auto simp: only_reads_def sent_since_def list_all_iff)
qed

lemma only_reads_refl [simp]: "only_reads w w"
  by (simp add: only_reads_iff)

lemma only_reads_trans: "only_reads w w1 \<Longrightarrow> only_reads w1 w2 \<Longrightarrow> only_reads w w2"
  unfolding only_reads_iff by auto

lemma only_reads_sent_eq: "sent w' = sent w \<Longrightarrow> only_reads w w'"
  by (simp add: only_reads_iff)

lemma only_reads_cong: "sent w1 = sent w \<Longrightarrow> sent w2 = sent w' \<Longrightarrow> only_reads w1 w2 = only_reads w w'"
  by (simp add: only_reads_iff)

lemma only_reads_logger [simp]: "only_reads w (logger l m e w') = only_reads w w'"
  "only_reads (logger l m e w) w' = only_reads w w'"
  by (simp_all add: only_reads_iff)

lemma cursor_execute_reads:
  "cursor_execute s w = (r, w') \<Longrightarrow> \<not> is_row_write s \<Longrightarrow> only_reads w w'"
  by (drule cursor_execute_cases) (auto simp: only_reads_iff)

lemma execute_all_reads:
  "execute_all ss w = (r, w') \<Longrightarrow> \<forall>s\<in>set ss. \<not> is_row_write s \<Longrightarrow> only_reads w w'"
proof (induction ss arbitrary: w)
  case Nil
  then show ?case by simp
next
  case (Cons s ss)
  obtain r1 w1 where e: "cursor_execute s w = (r1, w1)" by force
  from Cons.prems have "only_reads w w1" by (intro cursor_execute_reads [OF e]) simp
  moreover have "only_reads w1 w'"
  proof (cases r1)
    case (Inl x)
    with Cons.prems e show ?thesis by simp
  next
    case (Inr c)
    with Cons.prems e show ?thesis by (intro Cons.IH) auto
  qed
  ultimately show ?case by (rule only_reads_trans)
qed

lemma init_tables_reads: "init_tables w = (r, w') \<Longrightarrow> only_reads w w'"
  using execute_all_reads [OF _ ddl_not_row_write, of w]
  by (auto simp: init_tables_def only_reads_cong [of _ _ "_\<lparr>tables_created := True\<rparr>"]
      split: if_splits prod.splits sum.splits)

lemma next_event_sent: "next_event w = (ev, w0) \<Longrightarrow> sent w0 = sent w"
  by (auto simp: next_event_def split: list.splits)

lemma connect_reads: "connect w = (r, w') \<Longrightarrow> only_reads w w'"
proof -
  assume a: "connect w = (r, w')"
  obtain ev w0 where n: "next_event w = (ev, w0)" by force
  obtain r1 w1 where i: "init_tables (w0\<lparr>conn := Some Open\<rparr>) = (r1, w1)" by force
  from init_tables_reads [OF i] next_event_sent [OF n] have "only_reads w w1"
    by (simp add: only_reads_iff)
  moreover from next_event_sent [OF n] have "only_reads w w0" by (simp add: only_reads_iff)
  ultimately show ?thesis
    using a n i by (auto simp: connect_def Let_def split: event.splits sum.splits)
qed

lemma init_reads: "init w = (r, w') \<Longrightarrow> only_reads w w'"
  by (auto simp: init_def split: option.splits prod.splits sum.splits
      intro: connect_reads init_tables_reads only_reads_trans)

lemma ensure_connection_reads: "ensure_connection w = (r, w') \<Longrightarrow> only_reads w w'"
  by (auto simp: ensure_connection_def split: if_splits intro: connect_reads)

lemma begin_operation_reads: "begin_operation w = (r, w') \<Longrightarrow> only_reads w w'"
  by (auto simp: begin_operation_def split: prod.splits sum.splits
      intro: ensure_connection_reads init_reads only_reads_trans)

lemma await_loop_reads: "await_loop k mr delay max_delay w = (r, w') \<Longrightarrow> only_reads w w'"
proof (induction k arbitrary: delay w)
  case 0
  then show ?case by auto
next
  case (Suc k)
  obtain r1 w1 where e: "cursor_execute Select1 w = (r1, w1)" by force
  have r1: "only_reads w w1"
    by (rule cursor_execute_reads [OF e]) (simp add: is_row_write_def)
  show ?case
  proof (cases r1)
    case (Inr cur)
    with Suc.prems e r1 show ?thesis
      by (auto simp: only_reads_cong [of _ _ "_\<lparr>is_query_service_ready := True\<rparr>"])
  next
    case (Inl x)
    define w3 where "w3 = (logger Warning ''PostgreSQL database not available yet'' (Some x) w1)
                             \<lparr>slept := slept w1 @ [delay]\<rparr>"
    define w4 where "w4 = (if conn w3 = Some Closed then snd (connect w3) else w3)"
    have "only_reads w w3" using r1 by (simp add: w3_def only_reads_iff)
    moreover have "only_reads w3 w4"
      using connect_reads [of w3 "fst (connect w3)" "snd (connect w3)"] by (simp add: w4_def)
    ultimately have r4: "only_reads w w4" by (rule only_reads_trans)
    show ?thesis
    proof (cases "delay < 0")
      case True
      with Suc.prems e Inl r1 show ?thesis by (auto simp: Let_def)
    next
      case False
      have "await_loop (Suc k) mr delay max_delay w =
              await_loop k mr (min max_delay (delay * 1.5)) max_delay w4"
        unfolding w4_def w3_def using e Inl False by (simp add: Let_def)
      with Suc.prems
      have "await_loop k mr (min max_delay (delay * 1.5)) max_delay w4 = (r, w')" by simp
      from Suc.IH [OF this] r4 show ?thesis by (rule only_reads_trans [rotated])
    qed
  qed
qed

lemma await_up_reads: "await_up mr d md w = (r, w') \<Longrightarrow> only_reads w w'"
  by (auto simp: await_up_def split: if_splits prod.splits sum.splits
      intro: connect_reads await_loop_reads only_reads_trans)

section \<open>Looking a chat up\<close>

lemma get_chat_raises:
  "get_chat cid w = (Inl e, w') \<longleftrightarrow> begin_operation w = (Inl e, w')"
  by (auto simp: get_chat_def split: prod.splits sum.splits list.splits option.splits)

lemma get_chat_frame:
  assumes "get_chat cid w = (r, w')"
  shows "stored_rows w' = stored_rows w" "only_reads w w'"
    "tables_created w \<Longrightarrow> db w' = db w \<and> tables_created w'"
    "r = Inr res \<Longrightarrow> tables_created w'"
    "r = Inr (Some c) \<Longrightarrow> conn w' = Some Open \<and> has_chats (db w') \<and> cid \<in> set (chat_ids (db w))"
    "cid \<notin> set (chat_ids (db w)) \<Longrightarrow> r \<noteq> Inr (Some c)"
proof -
  obtain r1 w1 where b: "begin_operation w = (r1, w1)" by force
  obtain r2 w2 where e: "cursor_execute (SelectChat cid) w1 = (r2, w2)" by force
  note f = begin_operation_frame [OF b] and g = select_cases [OF e, of cid, simplified]
  have rd: "only_reads w w1" "only_reads w1 w2"
    using begin_operation_reads [OF b] cursor_execute_reads [OF e] by (simp_all add: is_row_write_def)
  have w': "w' = w1 \<or> w' = w2 \<or> (\<exists>x. w' = logger Warning ''Failed to get chat'' x w2)"
    and rw: "r1 = Inl x \<Longrightarrow> w' = w1" "r = Inr res \<Longrightarrow> r1 = Inr ()"
    for x
    using assms b e by (auto simp: get_chat_def split: sum.splits list.splits option.splits)
  have rows: "stored_rows w2 = stored_rows w1" using g(1) by (simp add: stored_rows_def)
  show "stored_rows w' = stored_rows w" using w' f(1) rows by auto
  show "only_reads w w'" using w' rd by (auto intro: only_reads_trans)
  show "tables_created w \<Longrightarrow> db w' = db w \<and> tables_created w'"
    using w' f(4) g(1,2) by auto
  show "r = Inr res \<Longrightarrow> tables_created w'"
    using w' rw(2) f(5) [of "()"] g(2) by auto
  have some: "r = Inr (Some c) \<Longrightarrow> \<exists>cur. r2 = Inr cur \<and> chat_rows cur \<noteq> [] \<and> w' = w2"
    using assms b e by (auto simp: get_chat_def split: sum.splits list.splits option.splits)
  show c: "r = Inr (Some c) \<Longrightarrow> conn w' = Some Open \<and> has_chats (db w') \<and> cid \<in> set (chat_ids (db w))"
  proof -
    assume a: "r = Inr (Some c)"
    from some [OF a] obtain cur where cur: "r2 = Inr cur" "chat_rows cur \<noteq> []" "w' = w2" by auto
    from g(5,7) [OF cur(1)] have o: "conn w2 = Some Open" and
      rs: "run_stmt (SelectChat cid) (db w1) = Inr (cur, db w1)" by simp_all
    from rs cur(2) have "has_chats (db w1)" "filter (\<lambda>c. c_id c = cid) (chats (db w1)) \<noteq> []"
      by (auto simp: run_stmt_def Let_def split: if_splits)
    then have "has_chats (db w1)" "cid \<in> set (chat_ids (db w1))"
      by (auto simp: chat_ids_def filter_empty_conv)
    moreover have "chat_ids (db w1) = chat_ids (db w)"
      using f(1) by (simp add: stored_rows_def chat_ids_def)
    ultimately show ?thesis using o cur(3) g(1) by simp
  qed
  show "cid \<notin> set (chat_ids (db w)) \<Longrightarrow> r \<noteq> Inr (Some c)"
    using c by auto
qed

section \<open>Appending to a chat that does not exist\<close>

lemmas world_simps = cursor_execute_def next_event_def run_stmt_def no_rows_def logger_def
  begin_operation_def ensure_connection_def init_def init_tables_def chat_ids_def
  message_keys_def empty_db_def

text \<open>
  C1. When \<open>chat_id\<close> names no row of \<open>chats\<close>, \<open>add_message\<close> raises, leaves the rows
  of both tables as they are and sends no \<open>INSERT\<close>, \<open>UPDATE\<close> or \<open>DELETE\<close>, whatever the
  environment does; when its connection check and \<open>init\<close> return normally, the exception
  is the "chat not found" \<open>ValueError\<close>.
\<close>

theorem add_message_chat_not_found:
  assumes "chat_id \<notin> set (chat_ids (db w))"
  shows "case add_message chat_id role content metadata now w of (r, w') \<Rightarrow>
     (\<exists>e. r = Inl e) \<and> chats (db w') = chats (db w) \<and> messages (db w') = messages (db w) \<and>
     only_reads w w' \<and>
     (fst (begin_operation w) = Inr () \<longrightarrow> r = Inl (ChatNotFound chat_id))"
proof -
  obtain r1 w1 where b: "begin_operation w = (r1, w1)" by force
  obtain r2 w2 where g: "get_chat chat_id w1 = (r2, w2)" by force
  note f = begin_operation_frame [OF b] begin_operation_reads [OF b]
  note h = get_chat_frame [OF g]
  have absent: "chat_id \<notin> set (chat_ids (db w1))"
    using assms f(1) by (simp add: stored_rows_def chat_ids_def)
  have rows: "stored_rows w2 = stored_rows w" "stored_rows w1 = stored_rows w"
    using f(1) h(1) by simp_all
  have rd: "only_reads w w2" using f(6) h(2) by (rule only_reads_trans)
  show ?thesis
  proof (cases r1)
    case (Inl e)
    with b rows f(6) show ?thesis
      by (simp add: add_message_def stored_rows_def)
  next
    case (Inr u)
    from f(5) [OF Inr] have "begin_operation w1 = (Inr (), w1)"
      by (simp add: begin_operation_steady)
    with g have "\<nexists>e. r2 = Inl e" by (auto simp: get_chat_raises)
    moreover from h(6) [OF absent] have "\<nexists>c. r2 = Inr (Some c)" by simp
    ultimately have "r2 = Inr None" by (cases r2) auto
    with b g Inr rows rd show ?thesis
      by (simp add: add_message_def stored_rows_def)
  qed
qed

theorem add_message_chat_not_found_witness:
  "''chat-b'' \<notin> set (chat_ids (db steady_world)) \<and>
   fst (begin_operation steady_world) = Inr () \<and>
   (case add_message ''chat-b'' ''user'' ''hello'' None sample_time steady_world of (r, w') \<Rightarrow>
      r = Inl (ChatNotFound ''chat-b'') \<and> chats (db w') = [sample_chat] \<and> messages (db w') = [] \<and>
      sent w' = [SelectChat ''chat-b''])"
proof -
  have h: "''chat-b'' \<notin> set (chat_ids (db steady_world))"
    by (simp add: steady_world_def chat_ids_def empty_db_def sample_chat_def)
  have s: "sent (snd (add_message ''chat-b'' ''user'' ''hello'' None sample_time steady_world))
             = [SelectChat ''chat-b'']"
    by (simp add: add_message_def get_chat_def steady_world_def sample_chat_def world_simps)
  have b: "fst (begin_operation steady_world) = Inr ()"
    by (simp add: steady_world_def world_simps)
  from add_message_chat_not_found [OF h, of "''user''" "''hello''" None sample_time] h s b
  show ?thesis
    by (auto simp: steady_world_def empty_db_def split: prod.splits)
qed

section \<open>Deleting a chat\<close>

lemma delete_statement_cases:
  assumes "cursor_execute (DeleteChat cid) w = (r, w')"
  shows "(\<exists>e. r = Inl e \<and> db w' = db w) \<or>
         (\<exists>cur. r = Inr cur \<and> rowcount cur = length (filter (\<lambda>c. c_id c = cid) (chats (db w))) \<and>
            chats (db w') = filter (\<lambda>c. c_id c \<noteq> cid) (chats (db w)) \<and>
            messages (db w') = filter (\<lambda>m. m_chat_id m \<noteq> cid) (messages (db w)))"
  using cursor_execute_cases [OF assms]
  by (auto simp: run_stmt_def no_rows_def split: if_splits)

lemma filter_length_less:
  "x \<in> set xs \<Longrightarrow> \<not> P x \<Longrightarrow> length (filter P xs) < length xs"
  by (metis filter_True length_filter_le less_le_not_le linorder_le_less_linear
      length_filter_less)

text \<open>
  C2. Whenever \<open>delete_chat\<close> returns a boolean, the boolean is true exactly when a row
  of \<open>chats\<close> was deleted: on \<open>True\<close> the chat existed and its row and its messages are
  gone, on any other outcome the rows of both tables are as before. When no chat has the
  id, the call never returns \<open>True\<close>, sends no \<open>INSERT\<close>, \<open>UPDATE\<close> or \<open>DELETE\<close>, leaves
  the whole database as it is once the tables have been created, and returns \<open>False\<close>
  when its connection check, \<open>init\<close> and \<open>await_up\<close> return normally.
\<close>

theorem delete_chat_result:
  "case delete_chat chat_id w of (r, w') \<Rightarrow>
     (\<forall>b. r = Inr b \<longrightarrow> (b \<longleftrightarrow> length (chats (db w')) < length (chats (db w)))) \<and>
     (r = Inr True \<longrightarrow>
        chat_id \<in> set (chat_ids (db w)) \<and>
        chats (db w') = filter (\<lambda>c. c_id c \<noteq> chat_id) (chats (db w)) \<and>
        messages (db w') = filter (\<lambda>m. m_chat_id m \<noteq> chat_id) (messages (db w))) \<and>
     (r \<noteq> Inr True \<longrightarrow> chats (db w') = chats (db w) \<and> messages (db w') = messages (db w)) \<and>
     (chat_id \<notin> set (chat_ids (db w)) \<longrightarrow>
        r \<noteq> Inr True \<and> only_reads w w' \<and> (tables_created w \<longrightarrow> db w' = db w) \<and>
        (fst (begin_operation w) = Inr () \<and>
         fst (await_up_default (snd (begin_operation w))) = Inr () \<longrightarrow> r = Inr False))"
proof -
  obtain r1 w1 where b: "begin_operation w = (r1, w1)" by force
  obtain r2 w2 where a: "await_up 30 1 10 w1 = (r2, w2)" by force
  obtain r3 w3 where g: "get_chat chat_id w2 = (r3, w3)" by force
  obtain r4 w4 where d: "cursor_execute (DeleteChat chat_id) w3 = (r4, w4)" by force
  note fb = begin_operation_frame [OF b] begin_operation_reads [OF b]
  note fa = await_up_frame [OF a] await_up_reads [OF a]
  note fg = get_chat_frame [OF g]
  have rows: "stored_rows w1 = stored_rows w" "stored_rows w2 = stored_rows w"
    "stored_rows w3 = stored_rows w"
    using fb(1) fa(1) fg(1) by simp_all
  have rd: "only_reads w w1" "only_reads w w2" "only_reads w w3"
    using fb(6) fa(5) fg(2) by (auto intro: only_reads_trans)
  have dbs: "tables_created w \<Longrightarrow> db w1 = db w \<and> db w2 = db w \<and> db w3 = db w"
    using fb(4) fa(2) fg(3) by auto
  have ids: "chat_ids (db w3) = chat_ids (db w)" "chat_ids (db w2) = chat_ids (db w)"
    using rows by (simp_all add: stored_rows_def chat_ids_def)
  show ?thesis
  proof (cases r1)
    case (Inl e)
    with b rows rd dbs show ?thesis
      by (simp add: delete_chat_def stored_rows_def)
  next
    case r1: (Inr u1)
    show ?thesis
    proof (cases r2)
      case (Inl e)
      with b a r1 rows rd dbs show ?thesis
        by (simp add: delete_chat_def await_up_default_def stored_rows_def)
    next
      case r2: (Inr u2)
      from fb(5) [OF r1] fa(3) [OF r2] fa(2) have "conn w2 = Some Open" "tables_created w2"
        by simp_all
      then have "begin_operation w2 = (Inr (), w2)" by (rule begin_operation_steady)
      with g have noraise: "\<nexists>e. r3 = Inl e" by (auto simp: get_chat_raises)
      show ?thesis
      proof (cases "\<exists>c. r3 = Inr (Some c)")
        case False
        with noraise have "r3 = Inr None" by (cases r3) auto
        with b a g r1 r2 rows rd dbs show ?thesis
          by (simp add: delete_chat_def await_up_default_def stored_rows_def)
      next
        case True
        then obtain c where r3: "r3 = Inr (Some c)" by auto
        from fg(5) [OF r3] ids have present: "chat_id \<in> set (chat_ids (db w))"
          "chat_id \<in> set (chat_ids (db w3))" by simp_all
        have res: "delete_chat chat_id w =
          (case r4 of Inl e \<Rightarrow> (Inl e, logger Error ''Failed to delete chat.'' None w4)
           | Inr cur \<Rightarrow> if 0 < rowcount cur
               then (Inr True, logger Info ''Deleted chat and its messages'' None w4)
               else (Inr False, w4))"
          using b a g d r1 r2 r3 by (simp add: delete_chat_def await_up_default_def)
        from delete_statement_cases [OF d] show ?thesis
        proof (elim disjE exE conjE)
          fix e assume "r4 = Inl e" "db w4 = db w3"
          with res rows present show ?thesis by (simp add: stored_rows_def)
        next
          fix cur
          assume c: "r4 = Inr cur"
            "rowcount cur = length (filter (\<lambda>c. c_id c = chat_id) (chats (db w3)))"
            "chats (db w4) = filter (\<lambda>c. c_id c \<noteq> chat_id) (chats (db w3))"
            "messages (db w4) = filter (\<lambda>m. m_chat_id m \<noteq> chat_id) (messages (db w3))"
          from present(2) obtain x where x: "x \<in> set (chats (db w3))" "c_id x = chat_id"
            by (auto simp: chat_ids_def)
          then have "filter (\<lambda>c. c_id c = chat_id) (chats (db w3)) \<noteq> []"
            by (auto simp: filter_empty_conv)
          with c(2) have pos: "0 < rowcount cur" by simp
          from x have "length (filter (\<lambda>c. c_id c \<noteq> chat_id) (chats (db w3))) < length (chats (db w3))"
            by (intro filter_length_less [of x]) simp_all
          with res c pos rows present show ?thesis by (simp add: stored_rows_def)
        qed
      qed
    qed
  qed
qed

theorem delete_chat_result_witness:
  "''chat-b'' \<notin> set (chat_ids (db steady_world)) \<and>
   fst (begin_operation steady_world) = Inr () \<and>
   fst (await_up_default (snd (begin_operation steady_world))) = Inr () \<and>
   tables_created steady_world \<and>
   fst (delete_chat ''chat-b'' steady_world) = Inr False \<and>
   db (snd (delete_chat ''chat-b'' steady_world)) = db steady_world \<and>
   only_reads steady_world (snd (delete_chat ''chat-b'' steady_world)) \<and>
   fst (delete_chat ''chat-a'' steady_world) = Inr True \<and>
   chats (db (snd (delete_chat ''chat-a'' steady_world))) = [] \<and>
   length (chats (db (snd (delete_chat ''chat-a'' steady_world)))) <
     length (chats (db steady_world))"
proof -
  have h: "''chat-b'' \<notin> set (chat_ids (db steady_world))"
    "fst (begin_operation steady_world) = Inr ()"
    "fst (await_up_default (snd (begin_operation steady_world))) = Inr ()"
    "tables_created steady_world"
    by (simp_all add: steady_world_def sample_chat_def await_up_default_def await_up_def world_simps)
  have t: "fst (delete_chat ''chat-a'' steady_world) = Inr True"
    by code_simp
  have f: "filter (\<lambda>c. c_id c \<noteq> ''chat-a'') (chats (db steady_world)) = []"
    "chats (db steady_world) \<noteq> []"
    by (simp_all add: steady_world_def sample_chat_def)
  note b = delete_chat_result [where chat_id = "''chat-b''" and w = steady_world,
      unfolded case_prod_beta]
  note a = delete_chat_result [where chat_id = "''chat-a''" and w = steady_world,
      unfolded case_prod_beta]
  from b h have "fst (delete_chat ''chat-b'' steady_world) = Inr False"
    "db (snd (delete_chat ''chat-b'' steady_world)) = db steady_world"
    "only_reads steady_world (snd (delete_chat ''chat-b'' steady_world))"
    by simp_all
  moreover from a t f have "chats (db (snd (delete_chat ''chat-a'' steady_world))) = []"
    "length (chats (db (snd (delete_chat ''chat-a'' steady_world)))) <
       length (chats (db steady_world))"
    by simp_all
  ultimately show ?thesis using h t by simp
qed

section \<open>Errors during a lookup\<close>

lemma get_chat_after_begin:
  assumes "begin_operation w = (Inr (), w1)"
    and "cursor_execute (SelectChat chat_id) w1 = (r2, w2)"
  shows "get_chat chat_id w =
     (case r2 of
        Inl e \<Rightarrow> (Inr None, logger Warning ''Failed to get chat'' (Some e) w2)
      | Inr cur \<Rightarrow>
          (case chat_rows cur of
             [] \<Rightarrow> (Inr None, w2)
           | r # _ \<Rightarrow>
               (case json_loads (c_metadata r) of
                  None \<Rightarrow> (Inr None, logger Warning ''Failed to get chat'' (Some JSONDecodeError) w2)
                | Some md \<Rightarrow>
                    (Inr (Some \<lparr>cd_id = c_id r, cd_created_at = isoformat (c_created_at r),
                                cd_updated_at = isoformat (c_updated_at r), cd_metadata = md\<rparr>),
                     w2))))"
  using assms by (simp add: get_chat_def split: sum.splits)

lemma get_chat_query_error:
  assumes "conn w = Some Open" "tables_created w"
    and "cursor_execute (SelectChat chat_id) w = (Inl e, w1)"
  shows "get_chat chat_id w = (Inr None, logger Warning ''Failed to get chat'' (Some e) w1)"
  using get_chat_after_begin [OF begin_operation_steady [OF assms(1,2)] assms(3)] by simp

text \<open>
  C4 (as amended). \<open>get_chat\<close> raises exactly when its connection check or \<open>init\<close>, which
  run before the \<open>try\<close> block, raise, and then with the same exception. When they return
  normally, \<open>get_chat\<close> returns: \<open>None\<close> when no chat has the id, and \<open>None\<close> after
  logging a warning when the query raises.
\<close>

theorem get_chat_raises_only_before_query:
  "case get_chat chat_id w of (r, w') \<Rightarrow>
     (\<forall>e. r = Inl e \<longleftrightarrow> fst (begin_operation w) = Inl e) \<and>
     (fst (begin_operation w) = Inr () \<longrightarrow>
        (\<exists>res. r = Inr res) \<and>
        (chat_id \<notin> set (chat_ids (db w)) \<longrightarrow> r = Inr None) \<and>
        (\<forall>e. fst (cursor_execute (SelectChat chat_id) (snd (begin_operation w))) = Inl e \<longrightarrow>
           r = Inr None \<and>
           log w' = log (snd (begin_operation w)) @ [Log Warning ''Failed to get chat'' (Some e)]))"
proof -
  obtain r w' where g: "get_chat chat_id w = (r, w')" by force
  obtain r1 w1 where b: "begin_operation w = (r1, w1)" by force
  obtain r2 w2 where q: "cursor_execute (SelectChat chat_id) w1 = (r2, w2)" by force
  have raise: "r = Inl e \<longleftrightarrow> r1 = Inl e" for e
    using g b by (auto simp: get_chat_def split: prod.splits sum.splits list.splits option.splits)
  have ok: "(\<exists>res. r = Inr res) \<and> (chat_id \<notin> set (chat_ids (db w)) \<longrightarrow> r = Inr None) \<and>
        (\<forall>e. r2 = Inl e \<longrightarrow> r = Inr None \<and> log w' = log w1 @ [Log Warning ''Failed to get chat'' (Some e)])"
    if r1: "r1 = Inr ()"
  proof -
    from raise r1 have nr: "\<nexists>e. r = Inl e" by auto
    then have 1: "\<exists>res. r = Inr res" by (cases r) auto
    from get_chat_frame(6) [OF g] 1 have 2: "chat_id \<notin> set (chat_ids (db w)) \<longrightarrow> r = Inr None"
      by (metis option.exhaust)
    from get_chat_after_begin [OF b [unfolded r1] q] g cursor_execute_frame(2) [OF q]
    have 3: "\<forall>e. r2 = Inl e \<longrightarrow> r = Inr None \<and> log w' = log w1 @ [Log Warning ''Failed to get chat'' (Some e)]"
      by auto
    from 1 2 3 show ?thesis by simp
  qed
  from raise ok show ?thesis
    unfolding g b q by (simp add: q)
qed

theorem get_chat_raises_only_before_query_witness:
  "fst (begin_operation faulty_world) = Inr () \<and>
   fst (cursor_execute (SelectChat ''chat-a'') (snd (begin_operation faulty_world))) =
     Inl (StoreError ServerFault) \<and>
   fst (get_chat ''chat-a'' faulty_world) = Inr None \<and>
   log (snd (get_chat ''chat-a'' faulty_world)) =
     [Log Warning ''Failed to get chat'' (Some (StoreError ServerFault))] \<and>
   ''chat-b'' \<notin> set (chat_ids (db faulty_world)) \<and>
   fst (get_chat ''chat-b'' faulty_world) = Inr None"
proof -
  have b: "begin_operation faulty_world = (Inr (), faulty_world)"
    by (simp add: faulty_world_def steady_world_def world_simps)
  have h: "fst (cursor_execute (SelectChat ''chat-a'') faulty_world) = Inl (StoreError ServerFault)"
    "log faulty_world = []" "''chat-b'' \<notin> set (chat_ids (db faulty_world))"
    by (simp_all add: faulty_world_def steady_world_def sample_chat_def world_simps)
  note a = get_chat_raises_only_before_query [where chat_id = "''chat-a''" and w = faulty_world,
      unfolded case_prod_beta b]
  note c = get_chat_raises_only_before_query [where chat_id = "''chat-b''" and w = faulty_world,
      unfolded case_prod_beta b]
  from a c h b show ?thesis by simp
qed

text \<open>
  \<open>get_chat\<close> can raise: on a client that has no connection and cannot connect, the
  connection error of \<open>connect\<close> reaches the caller.
\<close>

theorem get_chat_raises_counterexample:
  "fst (get_chat ''chat-a'' offline_world) = Inl ConnectError"
  by (simp add: get_chat_def offline_world_def connect_def world_simps)

section \<open>Store errors in the other operations\<close>

lemma await_up_default_ready:
  "is_query_service_ready w \<Longrightarrow> await_up_default w = (Inr (), w)"
  by (simp add: await_up_default_def await_up_def)

text \<open>
  C5 (as amended). Once the connection check and \<open>init\<close> have returned normally: a store
  error raised by the query of \<open>get_messages\<close>, by the \<open>UPDATE\<close> or the \<open>INSERT\<close> of
  \<open>add_message\<close>, or by the \<open>DELETE\<close> of \<open>delete_chat\<close> is logged and raised to the caller
  unchanged. A store error raised by the chat lookup inside \<open>add_message\<close> and
  \<open>delete_chat\<close> is caught by \<open>get_chat\<close>: \<open>add_message\<close> then raises "chat not found"
  and \<open>delete_chat\<close> returns \<open>False\<close>.
\<close>

theorem store_errors_after_lookup_are_reraised:
  assumes "begin_operation w = (Inr (), w1)"
  shows "(\<forall>w2 e w3. await_up_default w1 = (Inr (), w2) \<and>
            cursor_execute (SelectMessages chat_id) w2 = (Inl e, w3) \<longrightarrow>
            get_messages chat_id w =
              (Inl e, logger Error ''Failed to get messages.'' (Some e) w3)) \<and>
         (\<forall>c w2 e w3. get_chat chat_id w1 = (Inr (Some c), w2) \<and>
            cursor_execute (UpdateChatTs now chat_id) w2 = (Inl e, w3) \<longrightarrow>
            add_message chat_id role content metadata now w =
              (Inl e, logger Error ''Failed to add message.'' (Some e) w3)) \<and>
         (\<forall>c w2 cur w3 e w4. get_chat chat_id w1 = (Inr (Some c), w2) \<and>
            cursor_execute (UpdateChatTs now chat_id) w2 = (Inr cur, w3) \<and>
            cursor_execute
              (InsertMessage \<lparr>m_id = message_id_of now, m_chat_id = chat_id, m_role = role,
                              m_content = content, m_created_at = now,
                              m_metadata = json_dumps (metadata_or_empty metadata)\<rparr>) w3
              = (Inl e, w4) \<longrightarrow>
            add_message chat_id role content metadata now w =
              (Inl e, logger Error ''Failed to add message.'' (Some e) w4)) \<and>
         (\<forall>w2 c w3 e w4. await_up_default w1 = (Inr (), w2) \<and>
            get_chat chat_id w2 = (Inr (Some c), w3) \<and>
            cursor_execute (DeleteChat chat_id) w3 = (Inl e, w4) \<longrightarrow>
            delete_chat chat_id w = (Inl e, logger Error ''Failed to delete chat.'' None w4)) \<and>
         (\<forall>e w2. cursor_execute (SelectChat chat_id) w1 = (Inl e, w2) \<longrightarrow>
            add_message chat_id role content metadata now w =
              (Inl (ChatNotFound chat_id),
               logger Error ''Failed to add message.'' (Some (ChatNotFound chat_id))
                 (logger Warning ''Failed to get chat'' (Some e) w2))) \<and>
         (\<forall>w2 e w3. await_up_default w1 = (Inr (), w2) \<and>
            cursor_execute (SelectChat chat_id) w2 = (Inl e, w3) \<longrightarrow>
            delete_chat chat_id w =
              (Inr False, logger Warning ''Failed to get chat'' (Some e) w3))"
proof -
  note f = begin_operation_frame(5) [OF assms, of "()", simplified]
  have 1: "get_messages chat_id w = (Inl e, logger Error ''Failed to get messages.'' (Some e) w3)"
    if "await_up_default w1 = (Inr (), w2)"
      "cursor_execute (SelectMessages chat_id) w2 = (Inl e, w3)" for w2 e w3
    using assms that by (simp add: get_messages_def)
  have 2: "add_message chat_id role content metadata now w =
              (Inl e, logger Error ''Failed to add message.'' (Some e) w3)"
    if "get_chat chat_id w1 = (Inr (Some c), w2)"
      "cursor_execute (UpdateChatTs now chat_id) w2 = (Inl e, w3)" for c w2 e w3
    using assms that by (simp add: add_message_def)
  have 3: "add_message chat_id role content metadata now w =
              (Inl e, logger Error ''Failed to add message.'' (Some e) w4)"
    if "get_chat chat_id w1 = (Inr (Some c), w2)"
      "cursor_execute (UpdateChatTs now chat_id) w2 = (Inr cur, w3)"
      "cursor_execute
              (InsertMessage \<lparr>m_id = message_id_of now, m_chat_id = chat_id, m_role = role,
                              m_content = content, m_created_at = now,
                              m_metadata = json_dumps (metadata_or_empty metadata)\<rparr>) w3
              = (Inl e, w4)" for c w2 cur w3 e w4
    using assms that by (simp add: add_message_def Let_def)
  have 4: "delete_chat chat_id w = (Inl e, logger Error ''Failed to delete chat.'' None w4)"
    if "await_up_default w1 = (Inr (), w2)" "get_chat chat_id w2 = (Inr (Some c), w3)"
      "cursor_execute (DeleteChat chat_id) w3 = (Inl e, w4)" for w2 c w3 e w4
    using assms that by (simp add: delete_chat_def)
  have 5: "add_message chat_id role content metadata now w =
              (Inl (ChatNotFound chat_id),
               logger Error ''Failed to add message.'' (Some (ChatNotFound chat_id))
                 (logger Warning ''Failed to get chat'' (Some e) w2))"
    if q: "cursor_execute (SelectChat chat_id) w1 = (Inl e, w2)" for e w2
  proof -
    from f have "get_chat chat_id w1 =
        (Inr None, logger Warning ''Failed to get chat'' (Some e) w2)"
      by (intro get_chat_query_error q) simp_all
    with assms show ?thesis by (simp add: add_message_def)
  qed
  have 6: "delete_chat chat_id w = (Inr False, logger Warning ''Failed to get chat'' (Some e) w3)"
    if a: "await_up_default w1 = (Inr (), w2)"
      and q: "cursor_execute (SelectChat chat_id) w2 = (Inl e, w3)" for w2 e w3
  proof -
    from a have a': "await_up 30 1 10 w1 = (Inr (), w2)" by (simp add: await_up_default_def)
    from await_up_frame(2,3) [OF a'] f have "conn w2 = Some Open" "tables_created w2"
      by simp_all
    then have "get_chat chat_id w2 =
        (Inr None, logger Warning ''Failed to get chat'' (Some e) w3)"
      by (intro get_chat_query_error q)
    with assms a show ?thesis by (simp add: delete_chat_def)
  qed
  show ?thesis
    by (intro conjI allI impI; (elim conjE)?; (rule 1 2 3 4 5 6; assumption))
qed

theorem store_errors_after_lookup_are_reraised_witness:
  "begin_operation faulty_world = (Inr (), faulty_world) \<and>
   await_up_default faulty_world = (Inr (), faulty_world) \<and>
   fst (cursor_execute (SelectMessages ''chat-a'') faulty_world) = Inl (StoreError ServerFault) \<and>
   fst (get_messages ''chat-a'' faulty_world) = Inl (StoreError ServerFault) \<and>
   log (snd (get_messages ''chat-a'' faulty_world)) =
     [Log Error ''Failed to get messages.'' (Some (StoreError ServerFault))] \<and>
   fst (cursor_execute (SelectChat ''chat-a'') faulty_world) = Inl (StoreError ServerFault) \<and>
   fst (delete_chat ''chat-a'' faulty_world) = Inr False \<and>
   fst (add_message ''chat-a'' ''user'' ''hello'' None sample_time faulty_world) =
     Inl (ChatNotFound ''chat-a'')"
proof -
  have b: "begin_operation faulty_world = (Inr (), faulty_world)"
    by (simp add: faulty_world_def steady_world_def world_simps)
  have a: "await_up_default faulty_world = (Inr (), faulty_world)"
    by (simp add: await_up_default_ready faulty_world_def steady_world_def)
  define w1 where "w1 = faulty_world\<lparr>sent := [SelectMessages ''chat-a''], faults := []\<rparr>"
  define w2 where "w2 = faulty_world\<lparr>sent := [SelectChat ''chat-a''], faults := []\<rparr>"
  have q: "cursor_execute (SelectMessages ''chat-a'') faulty_world = (Inl (StoreError ServerFault), w1)"
    "cursor_execute (SelectChat ''chat-a'') faulty_world = (Inl (StoreError ServerFault), w2)"
    by (simp_all add: w1_def w2_def faulty_world_def steady_world_def cursor_execute_def
        next_event_def)
  have l: "log w1 = []" by (simp add: w1_def faulty_world_def steady_world_def)
  note t = store_errors_after_lookup_are_reraised [OF b, where chat_id = "''chat-a''"
      and now = sample_time and role = "''user''" and content = "''hello''" and metadata = None]
  note t1 = t [THEN conjunct1, rule_format, OF conjI [OF a q(1)]]
  note t5 = t [THEN conjunct2, THEN conjunct2, THEN conjunct2, THEN conjunct2, THEN conjunct1,
      rule_format, OF q(2)]
  note t6 = t [THEN conjunct2, THEN conjunct2, THEN conjunct2, THEN conjunct2, THEN conjunct2,
      rule_format, OF conjI [OF a q(2)]]
  show ?thesis using t1 t5 t6 a b q l by simp
qed

text \<open>
  Not every store error is re-raised: with an existing chat and a lookup query that
  raises, \<open>delete_chat\<close> returns \<open>False\<close> and \<open>add_message\<close> raises "chat not found".
\<close>

theorem store_errors_swallowed_by_lookup_counterexample:
  "''chat-a'' \<in> set (chat_ids (db faulty_world)) \<and>
   fst (cursor_execute (SelectChat ''chat-a'') faulty_world) = Inl (StoreError ServerFault) \<and>
   fst (delete_chat ''chat-a'' faulty_world) = Inr False \<and>
   fst (add_message ''chat-a'' ''user'' ''hello'' None sample_time faulty_world) =
     Inl (ChatNotFound ''chat-a'')"
  by (simp add: delete_chat_def add_message_def get_chat_def await_up_default_ready
      faulty_world_def steady_world_def sample_chat_def world_simps)

section \<open>Appending a message\<close>

lemma add_message_unfold:
  assumes "begin_operation w = (r1, w1)" "get_chat cid w1 = (r2, w2)"
    "cursor_execute (UpdateChatTs now cid) w2 = (r3, w3)"
    "cursor_execute (InsertMessage (new_message_row cid role content md now)) w3 = (r4, w4)"
  shows "add_message cid role content md now w =
    (case r1 of
       Inl e \<Rightarrow> (Inl e, w1)
     | Inr _ \<Rightarrow>
        (case r2 of
           Inl e \<Rightarrow> (Inl e, logger Error ''Failed to add message.'' (Some e) w2)
         | Inr None \<Rightarrow> (Inl (ChatNotFound cid),
                        logger Error ''Failed to add message.'' (Some (ChatNotFound cid)) w2)
         | Inr (Some c) \<Rightarrow>
            (case r3 of
               Inl e \<Rightarrow> (Inl e, logger Error ''Failed to add message.'' (Some e) w3)
             | Inr _ \<Rightarrow>
                (case r4 of
                   Inl e \<Rightarrow> (Inl e, logger Error ''Failed to add message.'' (Some e) w4)
                 | Inr _ \<Rightarrow> (Inr (message_id_of now, isoformat now),
                              logger Info ''Added message'' None w4)))))"
  using assms
  by (simp add: add_message_def new_message_row_def Let_def split: sum.splits option.splits)

lemma update_cases:
  assumes "cursor_execute (UpdateChatTs now cid) w = (r, w')"
  shows "messages (db w') = messages (db w)" "message_keys (db w') = message_keys (db w)"
    "chat_ids (db w') = chat_ids (db w)"
    "r = Inr cur \<Longrightarrow> chats (db w') = map (touch_chat now cid) (chats (db w))"
    "r = Inl e \<Longrightarrow> db w' = db w"
  using cursor_execute_cases [OF assms]
  by (auto simp: run_stmt_def no_rows_def touch_chat_def message_keys_def chat_ids_def
      split: if_splits)

lemma insert_cases:
  assumes "cursor_execute (InsertMessage row) w = (r, w')"
  shows "chats (db w') = chats (db w)"
    "r = Inr cur \<Longrightarrow> (m_chat_id row, m_id row) \<notin> set (message_keys (db w)) \<and>
       messages (db w') = messages (db w) @ [row]"
    "r = Inl e \<Longrightarrow> db w' = db w"
    "(m_chat_id row, m_id row) \<in> set (message_keys (db w)) \<Longrightarrow> \<exists>e. r = Inl e"
  using cursor_execute_cases [OF assms]
  by (auto simp: run_stmt_def no_rows_def split: if_splits)

lemma add_message_success:
  assumes "add_message cid role content md now w = (Inr res, w')"
  shows "res = (message_id_of now, isoformat now)"
    "messages (db w') = messages (db w) @ [new_message_row cid role content md now]"
    "chats (db w') = map (touch_chat now cid) (chats (db w))"
    "cid \<in> set (chat_ids (db w))"
    "(cid, message_id_of now) \<notin> set (message_keys (db w))"
proof -
  obtain r1 w1 where b: "begin_operation w = (r1, w1)" by force
  obtain r2 w2 where g: "get_chat cid w1 = (r2, w2)" by force
  obtain r3 w3 where u: "cursor_execute (UpdateChatTs now cid) w2 = (r3, w3)" by force
  obtain r4 w4 where i:
    "cursor_execute (InsertMessage (new_message_row cid role content md now)) w3 = (r4, w4)"
    by force
  note unf = add_message_unfold [OF b g u i]
  from assms unf obtain u1 c cur3 cur4 where
    ok: "r1 = Inr u1" "r2 = Inr (Some c)" "r3 = Inr cur3" "r4 = Inr cur4"
    and w': "w' = logger Info ''Added message'' None w4"
    and res: "res = (message_id_of now, isoformat now)"
    by (auto split: sum.splits option.splits)
  show "res = (message_id_of now, isoformat now)" by (fact res)
  have rows: "stored_rows w2 = stored_rows w"
    using begin_operation_frame(1) [OF b] get_chat_frame(1) [OF g] by simp
  then have eq: "chats (db w2) = chats (db w)" "messages (db w2) = messages (db w)"
    by (simp_all add: stored_rows_def)
  note uc = update_cases [OF u] and ic = insert_cases [OF i]
  from uc(1) ic(2) [OF ok(4)] eq
  show "messages (db w') = messages (db w) @ [new_message_row cid role content md now]"
    by (simp add: w' message_keys_def)
  from uc(4) [OF ok(3)] ic(1) eq
  show "chats (db w') = map (touch_chat now cid) (chats (db w))" by (simp add: w')
  from get_chat_frame(5) [OF g ok(2)] begin_operation_frame(1) [OF b]
  show "cid \<in> set (chat_ids (db w))" by (simp add: stored_rows_def chat_ids_def)
  from ic(2) [OF ok(4)] uc(1) eq
  show "(cid, message_id_of now) \<notin> set (message_keys (db w))"
    by (simp add: new_message_row_def message_keys_def)
qed




lemma steady_add_message:
  "fst (add_message ''chat-a'' ''user'' ''hello'' None sample_time steady_world) =
     Inr (1709967900001, ''2024-03-09T07:05:00.001500'')"
  by code_simp


section \<open>Two messages in one millisecond\<close>

lemma filter_keys_distinct:
  "distinct (map (\<lambda>m. (m_chat_id m, m_id m)) ms) \<Longrightarrow>
   distinct (map (\<lambda>m. (m_chat_id m, m_id m)) (filter P ms))"
  by (rule distinct_map_filter)

lemma add_message_keys:
  assumes "add_message cid role content md now w = (r, w')"
  shows "messages (db w') = messages (db w) \<or>
         (messages (db w') = messages (db w) @ [new_message_row cid role content md now] \<and>
          (cid, message_id_of now) \<notin> set (message_keys (db w)))"
    "(cid, message_id_of now) \<in> set (message_keys (db w)) \<Longrightarrow>
       (\<exists>e. r = Inl e) \<and> messages (db w') = messages (db w)"
    "distinct (message_keys (db w)) \<Longrightarrow> distinct (message_keys (db w'))"
proof -
  obtain r1 w1 where b: "begin_operation w = (r1, w1)" by force
  obtain r2 w2 where g: "get_chat cid w1 = (r2, w2)" by force
  obtain r3 w3 where u: "cursor_execute (UpdateChatTs now cid) w2 = (r3, w3)" by force
  obtain r4 w4 where i:
    "cursor_execute (InsertMessage (new_message_row cid role content md now)) w3 = (r4, w4)"
    by force
  note unf = add_message_unfold [OF b g u i]
  note uc = update_cases [OF u] and ic = insert_cases [OF i]
  have m1: "messages (db w1) = messages (db w)" "messages (db w2) = messages (db w)"
    "messages (db w3) = messages (db w)"
    using begin_operation_frame(1) [OF b] get_chat_frame(1) [OF g] uc(1)
    by (simp_all add: stored_rows_def)
  have m4: "(\<exists>e. r4 = Inl e) \<and> messages (db w4) = messages (db w) \<or>
            (\<exists>cur. r4 = Inr cur) \<and>
            messages (db w4) = messages (db w) @ [new_message_row cid role content md now] \<and>
            (cid, message_id_of now) \<notin> set (message_keys (db w))"
  proof (cases r4)
    case (Inl e)
    with ic(3) m1 show ?thesis by simp
  next
    case (Inr cur)
    with ic(2) [OF Inr] m1 show ?thesis
      by (simp add: new_message_row_def message_keys_def)
  qed
  have w': "messages (db w') = messages (db w) \<or>
            (\<exists>cur. r4 = Inr cur) \<and> messages (db w') = messages (db w4)"
    using assms unf m1 ic(3) by (auto split: sum.splits option.splits)
  show 1: "messages (db w') = messages (db w) \<or>
         (messages (db w') = messages (db w) @ [new_message_row cid role content md now] \<and>
          (cid, message_id_of now) \<notin> set (message_keys (db w)))"
    using w' m4 by auto
  show "(cid, message_id_of now) \<in> set (message_keys (db w)) \<Longrightarrow>
       (\<exists>e. r = Inl e) \<and> messages (db w') = messages (db w)"
  proof -
    assume k: "(cid, message_id_of now) \<in> set (message_keys (db w))"
    with 1 have same: "messages (db w') = messages (db w)" by auto
    from k m1 have "(m_chat_id (new_message_row cid role content md now),
        m_id (new_message_row cid role content md now)) \<in> set (message_keys (db w3))"
      by (simp add: new_message_row_def message_keys_def)
    from ic(4) [OF this] obtain e where "r4 = Inl e" by auto
    with assms unf have "\<exists>e. r = Inl e" by (auto split: sum.splits option.splits)
    with same show ?thesis by simp
  qed
  show "distinct (message_keys (db w)) \<Longrightarrow> distinct (message_keys (db w'))"
    using 1 by (auto simp: message_keys_def new_message_row_def)
qed

text \<open>
  C3 (as amended). After a call of \<open>add_message\<close> that returned normally, a second call
  on the same chat whose clock reading gives the same id never returns normally and
  leaves the rows of \<open>messages\<close> as they are; the primary key \<open>(chat_id, id)\<close> stays unique
  through both calls.
\<close>

theorem add_message_same_millisecond:
  assumes "add_message chat_id role1 content1 metadata1 now1 w = (Inr res1, w1)"
    and "message_id_of now2 = message_id_of now1"
  shows "case add_message chat_id role2 content2 metadata2 now2 w1 of (r2, w2) \<Rightarrow>
           (\<exists>e. r2 = Inl e) \<and> messages (db w2) = messages (db w1) \<and>
           (distinct (message_keys (db w)) \<longrightarrow>
              distinct (message_keys (db w1)) \<and> distinct (message_keys (db w2)))"
proof -
  obtain r2 w2 where a2: "add_message chat_id role2 content2 metadata2 now2 w1 = (r2, w2)"
    by force
  from add_message_success(2) [OF assms(1)]
  have "(chat_id, message_id_of now1) \<in> set (message_keys (db w1))"
    by (simp add: message_keys_def new_message_row_def)
  with assms(2) have "(chat_id, message_id_of now2) \<in> set (message_keys (db w1))" by simp
  from add_message_keys(2) [OF a2 this] add_message_keys(3) [OF assms(1)]
    add_message_keys(3) [OF a2]
  show ?thesis by (simp add: a2)
qed

lemma steady_second_add_message:
  "fst (add_message ''chat-a'' ''user'' ''again'' None
          (sample_time\<lparr>microsecond := 1999\<rparr>)
          (snd (add_message ''chat-a'' ''user'' ''hello'' None sample_time steady_world))) =
     Inl (StoreError UniqueViolation)"
  by code_simp

lemma same_millisecond: "message_id_of (sample_time\<lparr>microsecond := 1999\<rparr>) = message_id_of sample_time"
  by code_simp

theorem add_message_same_millisecond_witness:
  "add_message ''chat-a'' ''user'' ''hello'' None sample_time steady_world =
     (Inr (1709967900001, ''2024-03-09T07:05:00.001500''),
      snd (add_message ''chat-a'' ''user'' ''hello'' None sample_time steady_world)) \<and>
   message_id_of (sample_time\<lparr>microsecond := 1999\<rparr>) = message_id_of sample_time \<and>
   distinct (message_keys (db steady_world)) \<and>
   fst (add_message ''chat-a'' ''user'' ''again'' None (sample_time\<lparr>microsecond := 1999\<rparr>)
          (snd (add_message ''chat-a'' ''user'' ''hello'' None sample_time steady_world))) =
     Inl (StoreError UniqueViolation) \<and>
   distinct (message_keys (db (snd
     (add_message ''chat-a'' ''user'' ''again'' None (sample_time\<lparr>microsecond := 1999\<rparr>)
        (snd (add_message ''chat-a'' ''user'' ''hello'' None sample_time steady_world))))))"
proof -
  let ?w1 = "snd (add_message ''chat-a'' ''user'' ''hello'' None sample_time steady_world)"
  have h: "add_message ''chat-a'' ''user'' ''hello'' None sample_time steady_world =
     (Inr (1709967900001, ''2024-03-09T07:05:00.001500''), ?w1)"
    using steady_add_message by (metis prod.collapse)
  have d: "distinct (message_keys (db steady_world))"
    by (simp add: steady_world_def message_keys_def empty_db_def)
  note t = add_message_same_millisecond [OF h same_millisecond,
      where ?role2.0 = "''user''" and ?content2.0 = "''again''" and ?metadata2.0 = None,
      unfolded case_prod_beta]
  from t d have "distinct (message_keys (db (snd
     (add_message ''chat-a'' ''user'' ''again'' None (sample_time\<lparr>microsecond := 1999\<rparr>) ?w1))))"
    by simp
  with h d same_millisecond steady_second_add_message show ?thesis by simp
qed

text \<open>
  The second insert does not succeed: with two clock readings 499 microseconds apart in
  the same millisecond, the first call returns id 1709967900001 and the second raises
  the unique-violation error of the store.
\<close>

theorem add_message_same_millisecond_counterexample:
  "fst (add_message ''chat-a'' ''user'' ''hello'' None sample_time steady_world) =
     Inr (1709967900001, ''2024-03-09T07:05:00.001500'') \<and>
   message_id_of (sample_time\<lparr>microsecond := 1999\<rparr>) = message_id_of sample_time \<and>
   fst (add_message ''chat-a'' ''user'' ''again'' None (sample_time\<lparr>microsecond := 1999\<rparr>)
          (snd (add_message ''chat-a'' ''user'' ''hello'' None sample_time steady_world))) =
     Inl (StoreError UniqueViolation)"
  using steady_add_message same_millisecond steady_second_add_message by simp

section \<open>Reading the messages of a chat\<close>

lemma execute_init_fault_free:
  assumes "conn w = Some Open" "faults w = []" "tables_exist (db w)"
  shows "\<exists>w'. execute_all init_statements w = (Inr (), w') \<and> conn w' = Some Open \<and>
           faults w' = [] \<and> tables_exist (db w')"
  using assms
  by (simp add: init_statements_def cursor_execute_def next_event_def run_stmt_def no_rows_def
      tables_exist_def)

lemma init_tables_fault_free:
  assumes "conn w = Some Open" "faults w = []" "tables_exist (db w)"
  shows "\<exists>w'. init_tables w = (Inr (), w') \<and> conn w' = Some Open \<and>
           faults w' = [] \<and> tables_exist (db w') \<and> tables_created w'"
  using execute_init_fault_free [OF assms] assms
  by (auto simp: init_tables_def)

lemma connect_fault_free:
  assumes "faults w = []" "tables_exist (db w)"
  shows "\<exists>w'. connect w = (Inr (), w') \<and> conn w' = Some Open \<and>
           faults w' = [] \<and> tables_exist (db w') \<and> tables_created w'"
proof -
  let ?w2 = "w\<lparr>conn := Some Open\<rparr>"
  from assms have n: "next_event w = (Proceed, w)" by (simp add: next_event_def)
  from init_tables_fault_free [of ?w2] assms obtain w3 where
    i: "init_tables ?w2 = (Inr (), w3)" "conn w3 = Some Open" "faults w3 = []"
    "tables_exist (db w3)" "tables_created w3"
    by auto
  with n show ?thesis by (simp add: connect_def)
qed

lemma begin_operation_fault_free:
  assumes "faults w = []" "tables_exist (db w)"
  shows "\<exists>w'. begin_operation w = (Inr (), w') \<and> conn w' = Some Open \<and>
           faults w' = [] \<and> tables_exist (db w') \<and> tables_created w'"
proof -
  have "\<exists>w1. ensure_connection w = (Inr (), w1) \<and> conn w1 = Some Open \<and> faults w1 = [] \<and>
          tables_exist (db w1)"
    using connect_fault_free [OF assms] assms by (auto simp: ensure_connection_def)
  then obtain w1 where e: "ensure_connection w = (Inr (), w1)" "conn w1 = Some Open"
    "faults w1 = []" "tables_exist (db w1)" by auto
  from init_tables_fault_free [OF e(2-4)] e show ?thesis
    by (auto simp: begin_operation_def init_def)
qed

lemma await_up_fault_free:
  assumes "conn w = Some Open" "faults w = []"
  shows "\<exists>w'. await_up_default w = (Inr (), w') \<and> conn w' = Some Open \<and> faults w' = [] \<and>
           db w' = db w"
  using assms
  by (simp add: await_up_default_def await_up_def eval_nat_numeral cursor_execute_def
      next_event_def run_stmt_def no_rows_def)

lemma select_messages_rows:
  assumes "cursor_execute (SelectMessages cid) w = (Inr cur, w')"
  shows "message_rows cur = by_created_at (chat_messages cid w)" "db w' = db w"
  using cursor_execute_cases [OF assms]
  by (auto simp: run_stmt_def Let_def by_created_at_def chat_messages_def split: if_splits)

lemma select_messages_fault_free:
  assumes "conn w = Some Open" "faults w = []" "tables_exist (db w)"
  shows "\<exists>cur w'. cursor_execute (SelectMessages cid) w = (Inr cur, w') \<and>
           message_rows cur = by_created_at (chat_messages cid w)"
  using assms
  by (simp add: cursor_execute_def next_event_def run_stmt_def Let_def tables_exist_def
      by_created_at_def chat_messages_def)

lemma convert_rows_Some:
  "convert_rows rows = Some ms \<Longrightarrow>
     map md_id ms = map m_id rows \<and> map md_chat_id ms = map m_chat_id rows \<and>
     map md_role ms = map m_role rows \<and> map md_content ms = map m_content rows \<and>
     map md_created_at ms = map (\<lambda>r. isoformat (m_created_at r)) rows"
proof (induction rows arbitrary: ms)
  case Nil
  then show ?case by simp
next
  case (Cons r rs)
  then show ?case
    by (auto simp: message_of_row_def split: option.splits)
qed

lemma get_messages_returns:
  assumes "get_messages cid w = (Inr ms, w')"
  shows "convert_rows (by_created_at (chat_messages cid w)) = Some ms"
    "messages (db w') = messages (db w)"
proof -
  obtain r1 w1 where b: "begin_operation w = (r1, w1)" by force
  obtain r2 w2 where a: "await_up 30 1 10 w1 = (r2, w2)" by force
  obtain r3 w3 where q: "cursor_execute (SelectMessages cid) w2 = (r3, w3)" by force
  from assms b a q obtain cur where r3: "r3 = Inr cur"
    and c: "convert_rows (message_rows cur) = Some ms" and w': "w' = w3"
    by (auto simp: get_messages_def await_up_default_def split: sum.splits option.splits)
  have rows: "stored_rows w2 = stored_rows w"
    using begin_operation_frame(1) [OF b] await_up_frame(1) [OF a] by simp
  then have cm: "chat_messages cid w2 = chat_messages cid w"
    by (simp add: chat_messages_def stored_rows_def)
  from select_messages_rows [OF q [unfolded r3]] c cm rows w'
  show "convert_rows (by_created_at (chat_messages cid w)) = Some ms"
    "messages (db w') = messages (db w)"
    by (simp_all add: stored_rows_def)
qed

lemma get_messages_fault_free:
  assumes "faults w = []" "tables_exist (db w)"
    and "convert_rows (by_created_at (chat_messages cid w)) = Some ms"
  shows "fst (get_messages cid w) = Inr ms"
proof -
  from begin_operation_fault_free [OF assms(1,2)] obtain w1 where
    b: "begin_operation w = (Inr (), w1)" "conn w1 = Some Open" "faults w1 = []"
    "tables_exist (db w1)" by auto
  from await_up_fault_free [OF b(2,3)] obtain w2 where
    a: "await_up_default w1 = (Inr (), w2)" "conn w2 = Some Open" "faults w2 = []"
    "db w2 = db w1" by auto
  from select_messages_fault_free [of w2 cid] a b(4) obtain cur w3 where
    q: "cursor_execute (SelectMessages cid) w2 = (Inr cur, w3)"
    "message_rows cur = by_created_at (chat_messages cid w2)" by auto
  have "stored_rows w2 = stored_rows w"
    using begin_operation_frame(1) [OF b(1)] a(4) by (simp add: stored_rows_def)
  then have "chat_messages cid w2 = chat_messages cid w"
    by (simp add: chat_messages_def stored_rows_def)
  with b a q assms(3) show ?thesis by (simp add: get_messages_def)
qed

text \<open>
  C8. Whatever \<open>get_messages\<close> returns is the conversion of exactly the rows of
  \<open>messages\<close> with that chat id, in ascending order of \<open>created_at\<close>, and the table is left
  as it is. When nothing makes a round trip fail and the tables exist, it does return:
  the converted rows, and in particular the empty list when the chat has no messages,
  whether or not a chat with that id exists.
\<close>

theorem get_messages_sorted:
  "case get_messages chat_id w of (r, w') \<Rightarrow>
     (\<forall>ms. r = Inr ms \<longrightarrow>
        convert_rows (by_created_at (chat_messages chat_id w)) = Some ms \<and>
        sorted (map (\<lambda>m. epoch_micros (m_created_at m)) (by_created_at (chat_messages chat_id w))) \<and>
        mset (by_created_at (chat_messages chat_id w)) = mset (chat_messages chat_id w) \<and>
        map md_id ms = map m_id (by_created_at (chat_messages chat_id w)) \<and>
        map md_created_at ms =
          map (\<lambda>m. isoformat (m_created_at m)) (by_created_at (chat_messages chat_id w)) \<and>
        messages (db w') = messages (db w)) \<and>
     (faults w = [] \<and> tables_exist (db w) \<longrightarrow>
        (\<forall>ms. convert_rows (by_created_at (chat_messages chat_id w)) = Some ms \<longrightarrow> r = Inr ms) \<and>
        (chat_messages chat_id w = [] \<longrightarrow> r = Inr []))"
proof -
  obtain r w' where g: "get_messages chat_id w = (r, w')" by force
  have A: "\<forall>ms. r = Inr ms \<longrightarrow>
        convert_rows (by_created_at (chat_messages chat_id w)) = Some ms \<and>
        sorted (map (\<lambda>m. epoch_micros (m_created_at m)) (by_created_at (chat_messages chat_id w))) \<and>
        mset (by_created_at (chat_messages chat_id w)) = mset (chat_messages chat_id w) \<and>
        map md_id ms = map m_id (by_created_at (chat_messages chat_id w)) \<and>
        map md_created_at ms =
          map (\<lambda>m. isoformat (m_created_at m)) (by_created_at (chat_messages chat_id w)) \<and>
        messages (db w') = messages (db w)"
  proof (intro allI impI)
    fix ms assume r: "r = Inr ms"
    note m = get_messages_returns [OF g [unfolded r]]
    note c = convert_rows_Some [OF m(1)]
    have "sorted (map (\<lambda>m. epoch_micros (m_created_at m)) (by_created_at (chat_messages chat_id w)))"
      unfolding by_created_at_def by (rule sorted_sort_key)
    moreover have "mset (by_created_at (chat_messages chat_id w)) = mset (chat_messages chat_id w)"
      unfolding by_created_at_def by (rule mset_sort)
    ultimately show "convert_rows (by_created_at (chat_messages chat_id w)) = Some ms \<and>
        sorted (map (\<lambda>m. epoch_micros (m_created_at m)) (by_created_at (chat_messages chat_id w))) \<and>
        mset (by_created_at (chat_messages chat_id w)) = mset (chat_messages chat_id w) \<and>
        map md_id ms = map m_id (by_created_at (chat_messages chat_id w)) \<and>
        map md_created_at ms =
          map (\<lambda>m. isoformat (m_created_at m)) (by_created_at (chat_messages chat_id w)) \<and>
        messages (db w') = messages (db w)"
      using m c by (intro conjI) (assumption | (elim conjE, assumption))+
  qed
  have B: "faults w = [] \<and> tables_exist (db w) \<longrightarrow>
        (\<forall>ms. convert_rows (by_created_at (chat_messages chat_id w)) = Some ms \<longrightarrow> r = Inr ms) \<and>
        (chat_messages chat_id w = [] \<longrightarrow> r = Inr [])"
  proof (intro impI conjI allI)
    fix ms
    assume h: "faults w = [] \<and> tables_exist (db w)"
      and c: "convert_rows (by_created_at (chat_messages chat_id w)) = Some ms"
    from h have h1: "faults w = []" and h2: "tables_exist (db w)" by (rule conjunct1, rule conjunct2)
    from get_messages_fault_free [OF h1 h2 c] g show "r = Inr ms" by simp
  next
    assume h: "faults w = [] \<and> tables_exist (db w)" and e: "chat_messages chat_id w = []"
    from h have h1: "faults w = []" and h2: "tables_exist (db w)" by (rule conjunct1, rule conjunct2)
    have c: "convert_rows (by_created_at (chat_messages chat_id w)) = Some []"
      by (simp add: e by_created_at_def)
    from get_messages_fault_free [OF h1 h2 c] g show "r = Inr []" by simp
  qed
  show ?thesis unfolding g prod.case using A B by (rule conjI)
qed

lemma two_message_rows:
  "convert_rows (by_created_at (chat_messages ''chat-a'' two_message_world)) =
     Some [\<lparr>md_id = 1709967899000, md_chat_id = ''chat-a'', md_role = ''user'',
             md_content = ''first'', md_created_at = ''2024-03-09T07:04:59'',
             md_metadata = JObj []\<rparr>,
           \<lparr>md_id = 1709967900001, md_chat_id = ''chat-a'', md_role = ''assistant'',
             md_content = ''second'', md_created_at = ''2024-03-09T07:05:00.001500'',
             md_metadata = JObj []\<rparr>]"
  by code_simp

theorem get_messages_sorted_witness:
  "faults steady_world = [] \<and> tables_exist (db steady_world) \<and>
   ''chat-a'' \<in> set (chat_ids (db steady_world)) \<and> chat_messages ''chat-a'' steady_world = [] \<and>
   fst (get_messages ''chat-a'' steady_world) = Inr [] \<and>
   ''chat-b'' \<notin> set (chat_ids (db steady_world)) \<and> chat_messages ''chat-b'' steady_world = [] \<and>
   fst (get_messages ''chat-b'' steady_world) = Inr [] \<and>
   faults two_message_world = [] \<and> tables_exist (db two_message_world) \<and>
   map m_content (messages (db two_message_world)) = [''second'', ''first''] \<and>
   map md_content (projr (fst (get_messages ''chat-a'' two_message_world))) = [''first'', ''second'']"
proof -
  have h: "faults steady_world = []" "tables_exist (db steady_world)"
    "''chat-a'' \<in> set (chat_ids (db steady_world))" "chat_messages ''chat-a'' steady_world = []"
    "''chat-b'' \<notin> set (chat_ids (db steady_world))" "chat_messages ''chat-b'' steady_world = []"
    by (simp_all add: steady_world_def tables_exist_def empty_db_def chat_ids_def sample_chat_def
        chat_messages_def)
  have k: "faults two_message_world = []" "tables_exist (db two_message_world)"
    "map m_content (messages (db two_message_world)) = [''second'', ''first'']"
    by (simp_all add: two_message_world_def steady_world_def tables_exist_def empty_db_def
        later_message_def earlier_message_def)
  note a = get_messages_sorted [where chat_id = "''chat-a''" and w = steady_world,
      unfolded case_prod_beta, THEN conjunct2, rule_format, OF conjI [OF h(1,2)],
      THEN conjunct2, rule_format, OF h(4)]
  note b = get_messages_sorted [where chat_id = "''chat-b''" and w = steady_world,
      unfolded case_prod_beta, THEN conjunct2, rule_format, OF conjI [OF h(1,2)],
      THEN conjunct2, rule_format, OF h(6)]
  note c = get_messages_sorted [where chat_id = "''chat-a''" and w = two_message_world,
      unfolded case_prod_beta, THEN conjunct2, rule_format, OF conjI [OF k(1,2)],
      THEN conjunct1, rule_format, OF two_message_rows]
  have "map md_content (projr (fst (get_messages ''chat-a'' two_message_world))) =
      [''first'', ''second'']"
    by (simp add: c)
  with h k a b show ?thesis by simp
qed

section \<open>Encoding and decoding metadata\<close>

text \<open>
  \<open>json_loads\<close> reads back what \<open>json_dumps\<close> wrote: numbers, strings with their
  escapes, then arrays and objects by induction on the value, with the fuel
  \<open>json_loads\<close> provides shown to be enough.
\<close>

lemma digit_char_code: "of_char (digit_char d) = (48 + d mod 10 :: nat)"
  by (simp add: digit_char_def)

lemma is_digit_digit_char [simp]: "is_digit (digit_char d)"
  by (simp add: is_digit_def digit_char_code)








lemma delimited_simps [simp]:
  "delimited []" "delimited (CHR '','' # r)" "delimited (CHR '']'' # r)" "delimited (CHR ''}'' # r)"
  by (simp_all add: delimited_def)











lemma skip_ws_Nil [simp]: "skip_ws [] = []"
  by (simp add: skip_ws_def)




















section \<open>Metadata through the store\<close>










end
